theory Spec2Isabelle
  imports Main
begin

section \<open>The guardian package: data model\<close>

text \<open>
  A Go \<open>error\<close> value: \<open>errors.New(msg)\<close>, or the error a collaborator returned.
  A function returning \<open>(T, error)\<close> is modelled as \<open>error + T\<close>, a function returning
  only \<open>error\<close> as \<open>error option\<close> (\<open>None\<close> is \<open>nil\<close>).
\<close>

datatype error = errors_New string

fun ErrorString :: "error \<Rightarrow> string" where
  "ErrorString (errors_New m) = m"

text \<open>
  The \<open>Guardian\<close> struct. Both fields are Go pointers, \<open>None\<close> is \<open>nil\<close>; the objects
  they point to belong to the addressdb library and are named by a handle. The mutex
  \<open>mu\<close> is left out: the model is sequential.
\<close>

record Guardian =
  filter :: "nat option"
  manager :: "nat option"

record Config =
  FilterFilePath :: string
  Disabled :: bool

text \<open>The entry handed to \<open>logFilteredEntry\<close> on a hit (the field \<open>from\<close> is \<open>from'\<close>).\<close>

record 'tx filteredTxLog =
  filteredAddress :: string
  from' :: string
  transaction :: 'tx

datatype level = LvlInfo | LvlWarn | LvlError

text \<open>
  What the package does to the outside, in the order it does it: a log line, a
  membership query sent to a store, an entry handed to \<open>logFilteredEntry\<close>, a snapshot
  load, a file watcher, a reload manager started or stopped.
\<close>

datatype 'tx event =
    Log level string "string list"
  | Query nat string
  | Entry "'tx filteredTxLog"
  | Load string
  | Watch string nat
  | Start nat
  | ManagerStop nat

text \<open>
  The package-level variables \<open>instance\<close> (a \<open>*Guardian\<close>, \<open>None\<close> is \<open>nil\<close>) and
  \<open>initOnce\<close> (the done flag of the \<open>sync.Once\<close>), the allocated \<open>Guardian\<close> objects
  (a pointer is an index into \<open>heap\<close>), and the effects so far.
\<close>

record 'tx process =
  "instance" :: "nat option"
  initOnce :: bool
  heap :: "Guardian list"
  trace :: "'tx event list"

text \<open>\<open>user.User\<close>, of which only \<open>HomeDir\<close> is read.\<close>

record User =
  HomeDir :: string

text \<open>
  What the package imports and this model takes as given: sender recovery and the
  accessors of go-ethereum, the addressdb store, notifier and reload manager,
  \<open>logFilteredEntry\<close>, and \<open>os/user\<close>, \<open>runtime\<close>, \<open>path/filepath\<close>, \<open>unicode\<close> of the
  standard library.
\<close>

record ('signer, 'tx, 'addr) world =
  Sender :: "'signer \<Rightarrow> 'tx \<Rightarrow> error + 'addr"
  To :: "'tx \<Rightarrow> 'addr option"
  Hex :: "'addr \<Rightarrow> string"
  HashHex :: "'tx \<Rightarrow> string"
  CheckAddress :: "nat \<Rightarrow> string \<Rightarrow> error + bool"
  logFilteredEntry :: "'tx filteredTxLog \<Rightarrow> error option"
  unicode_ToLower :: "string \<Rightarrow> string"
  user_Current :: "error + User"
  GOOS :: string
  Join :: "string list \<Rightarrow> string"
  NewBloomFilterStoreFromFile :: "string \<Rightarrow> error + nat"
  NewFileWatcherNotifier :: "string \<Rightarrow> nat \<Rightarrow> error + nat"
  NewReloadManager :: "nat \<Rightarrow> nat \<Rightarrow> nat"
  manager_Start :: "nat \<Rightarrow> error option"

text \<open>A call either returns or panics (a nil pointer dereference).\<close>

datatype 'a outcome = Return 'a | Panic

definition bloomFilterFilename :: string where
  "bloomFilterFilename = ''bloom_filter.gob''"

definition linuxPath :: string where
  "linuxPath = ''geth/guardian''"

definition darwinPath :: string where
  "darwinPath = ''Library/Story/geth/guardian''"

definition emit :: "'tx event \<Rightarrow> 'tx process \<Rightarrow> 'tx process" where
  "emit e s = s\<lparr>trace := trace s @ [e]\<rparr>"

definition deref :: "'tx process \<Rightarrow> nat option \<Rightarrow> Guardian option" where
  "deref s p =
     (case p of None \<Rightarrow> None
      | Some a \<Rightarrow> if a < length (heap s) then Some (heap s ! a) else None)"

section \<open>strings.ToLower\<close>

text \<open>
  \<open>strings.ToLower\<close> has a fast path for a string of ASCII bytes only, where it adds
  \<open>'a' - 'A'\<close> to each byte in \<open>'A'..'Z'\<close>; any other string goes through
  \<open>Map(unicode.ToLower, s)\<close>, which is the world's.
\<close>

definition isASCII :: "string \<Rightarrow> bool" where
  "isASCII s = list_all (\<lambda>c. (of_char c :: nat) < 128) s"

definition isUpper :: "char \<Rightarrow> bool" where
  "isUpper c = (65 \<le> (of_char c :: nat) \<and> (of_char c :: nat) \<le> 90)"

definition toLowerByte :: "char \<Rightarrow> char" where
  "toLowerByte c = (if isUpper c then char_of ((of_char c :: nat) + 32) else c)"

definition ToLower :: "('signer, 'tx, 'addr) world \<Rightarrow> string \<Rightarrow> string" where
  "ToLower w s = (if isASCII s then map toLowerByte s else unicode_ToLower w s)"

section \<open>Singleton lifecycle\<close>

definition getDefaultPath :: "('signer, 'tx, 'addr) world \<Rightarrow> error + string" where
  "getDefaultPath w =
     (case user_Current w of
        Inl err \<Rightarrow> Inl err
      | Inr u \<Rightarrow>
          if GOOS w = ''linux'' then Inr (Join w [HomeDir u, linuxPath])
          else if GOOS w = ''darwin'' then Inr (Join w [HomeDir u, darwinPath])
          else Inl (errors_New ''unsupported OS for guardian''))"

text \<open>
  \<open>newGuardian\<close> fills in \<open>config.FilterFilePath\<close> when it is empty, then loads the
  snapshot, creates the file watcher (polling every 10 seconds), starts the reload
  manager, and allocates the \<open>Guardian\<close>. Each early \<open>return nil, err\<close> is an \<open>Inl\<close>.
\<close>

definition newGuardian ::
  "('signer, 'tx, 'addr) world \<Rightarrow> Config \<Rightarrow> 'tx process \<Rightarrow> (error + nat) \<times> 'tx process" where
  "newGuardian w config s =
     (case (if FilterFilePath config = ''''
            then (case getDefaultPath w of
                    Inl err \<Rightarrow> Inl err
                  | Inr path \<Rightarrow>
                      Inr (config\<lparr>FilterFilePath := Join w [path, bloomFilterFilename]\<rparr>))
            else Inr config) of
        Inl err \<Rightarrow> (Inl err, s)
      | Inr config \<Rightarrow>
          let s1 = emit (Load (FilterFilePath config)) s in
          (case NewBloomFilterStoreFromFile w (FilterFilePath config) of
             Inl err \<Rightarrow> (Inl err, s1)
           | Inr flt \<Rightarrow>
               let s2 = emit (Watch (FilterFilePath config) 10) s1 in
               (case NewFileWatcherNotifier w (FilterFilePath config) 10 of
                  Inl err \<Rightarrow> (Inl err, s2)
                | Inr notifier \<Rightarrow>
                    let mgr = NewReloadManager w flt notifier;
                        s3 = emit (Start mgr) s2 in
                    (case manager_Start w mgr of
                       Some err \<Rightarrow> (Inl err, s3)
                     | None \<Rightarrow>
                         let s4 = emit (Log LvlInfo ''Guardian initialized''
                                          [''file'', FilterFilePath config]) s3 in
                         (Inr (length (heap s4)),
                          s4\<lparr>heap := heap s4 @ [\<lparr>filter = Some flt, manager = Some mgr\<rparr>]\<rparr>)))))"

text \<open>
  \<open>initOnce.Do(f)\<close> runs \<open>f\<close> only while the guard is unused, and the guard is used once
  \<open>f\<close> has returned, whatever \<open>f\<close> did. The assignment \<open>instance, err = newGuardian(config)\<close>
  stores \<open>nil\<close> when construction fails.
\<close>

definition InitInstance ::
  "('signer, 'tx, 'addr) world \<Rightarrow> Config \<Rightarrow> 'tx process \<Rightarrow> 'tx process" where
  "InitInstance w config s =
     (if initOnce s then s
      else
        (if Disabled config
         then emit (Log LvlWarn ''Guardian is disabled'' []) s
         else (case newGuardian w config s of
                 (Inl err, s1) \<Rightarrow>
                   emit (Log LvlError ''Failed to initialize Guardian'' [''error'', ErrorString err])
                     (s1\<lparr>instance := None\<rparr>)
               | (Inr g, s1) \<Rightarrow> s1\<lparr>instance := Some g\<rparr>))
        \<lparr>initOnce := True\<rparr>)"

definition GetInstance :: "'tx process \<Rightarrow> nat option \<times> error option" where
  "GetInstance s =
     (case instance s of
        None \<Rightarrow> (None, Some (errors_New ''guardian is not initialized''))
      | Some g \<Rightarrow> (Some g, None))"

text \<open>
  \<open>Stop\<close> locks \<open>p.mu\<close> and reads \<open>p.manager\<close>: both dereference the receiver. The error
  of \<open>manager.Stop()\<close> is dropped.
\<close>

definition Stop ::
  "('signer, 'tx, 'addr) world \<Rightarrow> nat option \<Rightarrow> 'tx process \<Rightarrow> unit outcome \<times> 'tx process" where
  "Stop w p s =
     (case deref s p of
        None \<Rightarrow> (Panic, s)
      | Some g \<Rightarrow>
          (case manager g of
             Some m \<Rightarrow> (Return (), emit (ManagerStop m) s)
           | None \<Rightarrow> (Return (), s)))"

text \<open>
  \<open>Reset\<close> stops the singleton when there is one, then locks the mutex of its own
  receiver \<open>p\<close> (\<open>p.mu.Lock()\<close>, a dereference of \<open>p\<close>) and clears both package variables.
\<close>

definition Reset ::
  "('signer, 'tx, 'addr) world \<Rightarrow> nat option \<Rightarrow> 'tx process \<Rightarrow> unit outcome \<times> 'tx process" where
  "Reset w p s =
     (case (if instance s \<noteq> None then Stop w (instance s) s else (Return (), s)) of
        (Panic, s1) \<Rightarrow> (Panic, s1)
      | (Return _, s1) \<Rightarrow>
          (case deref s1 p of
             None \<Rightarrow> (Panic, s1)
           | Some _ \<Rightarrow> (Return (), s1\<lparr>instance := None, initOnce := False\<rparr>)))"

section \<open>Screening a transaction\<close>

text \<open>
  \<open>checkAddress\<close> returns Go's pair \<open>(bool, error)\<close>. It reads \<open>p.filter\<close> and calls the
  store's \<open>CheckAddress\<close> on it; a nil receiver or a nil store is a panic.
\<close>

definition checkAddress ::
  "('signer, 'tx, 'addr) world \<Rightarrow> nat option \<Rightarrow> 'tx \<Rightarrow> string \<Rightarrow> string \<Rightarrow> 'tx process
     \<Rightarrow> (bool \<times> error option) outcome \<times> 'tx process" where
  "checkAddress w p tx from addr s =
     (case deref s p of
        None \<Rightarrow> (Panic, s)
      | Some g \<Rightarrow>
          (case filter g of
             None \<Rightarrow> (Panic, s)
           | Some st \<Rightarrow>
               let s1 = emit (Query st (ToLower w addr)) s in
               (case CheckAddress w st (ToLower w addr) of
                  Inl err \<Rightarrow> (Return (False, Some err), s1)
                | Inr ok \<Rightarrow>
                    if ok then
                      let entry = \<lparr>filteredAddress = addr, from' = from, transaction = tx\<rparr>;
                          s2 = emit (Entry entry) s1;
                          s3 = (case logFilteredEntry w entry of
                                  Some err \<Rightarrow>
                                    emit (Log LvlError ''Failed to log filtered transaction''
                                            [''err'', ErrorString err]) s2
                                | None \<Rightarrow> s2);
                          s4 = emit (Log LvlWarn ''Filtered address found in transaction''
                                       [''tx'', HashHex w tx, ''address'', addr]) s3
                      in (Return (True, None), s4)
                    else (Return (False, None), s1))))"

definition CheckTransaction ::
  "('signer, 'tx, 'addr) world \<Rightarrow> nat option \<Rightarrow> 'signer \<Rightarrow> 'tx \<Rightarrow> 'tx process
     \<Rightarrow> bool outcome \<times> 'tx process" where
  "CheckTransaction w p signer tx s =
     (case Sender w signer tx of
        Inl err \<Rightarrow>
          (Return False,
           emit (Log LvlError ''Failed to extract 'from' address'' [''err'', ErrorString err]) s)
      | Inr from \<Rightarrow>
          (case checkAddress w p tx (Hex w from) (Hex w from) s of
             (Panic, s1) \<Rightarrow> (Panic, s1)
           | (Return (filtered, err), s1) \<Rightarrow>
               if err \<noteq> None \<or> filtered then
                 (Return filtered,
                  (case err of
                     Some e \<Rightarrow> emit (Log LvlError ''Error checking sender address''
                                       [''err'', ErrorString e]) s1
                   | None \<Rightarrow> s1))
               else
                 (case To w tx of
                    Some to \<Rightarrow>
                      (case checkAddress w p tx (Hex w from) (Hex w to) s1 of
                         (Panic, s2) \<Rightarrow> (Panic, s2)
                       | (Return (filtered, err), s2) \<Rightarrow>
                           if err \<noteq> None \<or> filtered then
                             (Return filtered,
                              (case err of
                                 Some e \<Rightarrow> emit (Log LvlError ''Error checking recipient address''
                                                   [''err'', ErrorString e]) s2
                               | None \<Rightarrow> s2))
                           else (Return False, s2))
                  | None \<Rightarrow> (Return False, s1))))"

section \<open>Reading the effects of a call\<close>

text \<open>The events a call added, and the membership queries and log entries among them.\<close>

definition added :: "'tx process \<Rightarrow> 'tx process \<Rightarrow> 'tx event list" where
  "added s s' = drop (length (trace s)) (trace s')"

fun queries :: "'tx event list \<Rightarrow> (nat \<times> string) list" where
  "queries [] = []"
| "queries (Query st a # es) = (st, a) # queries es"
| "queries (_ # es) = queries es"

fun entries :: "'tx event list \<Rightarrow> 'tx filteredTxLog list" where
  "entries [] = []"
| "entries (Entry e # es) = e # entries es"
| "entries (_ # es) = entries es"

text \<open>The events of one membership test that hits.\<close>

definition hitEvents ::
  "('signer, 'tx, 'addr) world \<Rightarrow> nat \<Rightarrow> 'tx \<Rightarrow> string \<Rightarrow> string \<Rightarrow> 'tx event list" where
  "hitEvents w st tx from addr =
     [Query st (ToLower w addr),
      Entry \<lparr>filteredAddress = addr, from' = from, transaction = tx\<rparr>]
     @ (case logFilteredEntry w \<lparr>filteredAddress = addr, from' = from, transaction = tx\<rparr> of
          Some err \<Rightarrow> [Log LvlError ''Failed to log filtered transaction'' [''err'', ErrorString err]]
        | None \<Rightarrow> [])
     @ [Log LvlWarn ''Filtered address found in transaction''
          [''tx'', HashHex w tx, ''address'', addr]]"

text \<open>The events of screening: log lines, membership queries, log entries.\<close>

definition isScreeningEvent :: "'tx event \<Rightarrow> bool" where
  "isScreeningEvent e =
     (case e of Log _ _ _ \<Rightarrow> True | Query _ _ \<Rightarrow> True | Entry _ \<Rightarrow> True | _ \<Rightarrow> False)"

section \<open>Sequences of calls\<close>

text \<open>
  The exported operations as calls on the process. A call that panics leaves the
  process as it was at the panic.
\<close>

datatype ('signer, 'tx, 'addr) call =
    CallInitInstance "('signer, 'tx, 'addr) world" Config
  | CallGetInstance
  | CallCheckTransaction "('signer, 'tx, 'addr) world" "nat option" 'signer 'tx
  | CallStop "('signer, 'tx, 'addr) world" "nat option"
  | CallReset "('signer, 'tx, 'addr) world" "nat option"

fun step :: "('signer, 'tx, 'addr) call \<Rightarrow> 'tx process \<Rightarrow> 'tx process" where
  "step (CallInitInstance w config) s = InitInstance w config s"
| "step CallGetInstance s = s"
| "step (CallCheckTransaction w p signer tx) s = snd (CheckTransaction w p signer tx s)"
| "step (CallStop w p) s = snd (Stop w p s)"
| "step (CallReset w p) s = snd (Reset w p s)"

fun run :: "('signer, 'tx, 'addr) call list \<Rightarrow> 'tx process \<Rightarrow> 'tx process" where
  "run [] s = s"
| "run (c # cs) s = run cs (step c s)"

text \<open>The package variables when the process starts: Go's zero values.\<close>

definition process0 :: "'tx process" where
  "process0 = \<lparr>instance = None, initOnce = False, heap = [], trace = []\<rparr>"

text \<open>A call that is an \<open>InitInstance\<close> which installs an instance where there was none.\<close>

fun successfulInit :: "('signer, 'tx, 'addr) call \<Rightarrow> 'tx process \<Rightarrow> bool" where
  "successfulInit (CallInitInstance w config) s =
     (instance s = None \<and> instance (InitInstance w config s) \<noteq> None)"
| "successfulInit _ s = False"

fun noSuccessfulInit :: "('signer, 'tx, 'addr) call list \<Rightarrow> 'tx process \<Rightarrow> bool" where
  "noSuccessfulInit [] s = True"
| "noSuccessfulInit (c # cs) s = (\<not> successfulInit c s \<and> noSuccessfulInit cs (step c s))"

fun isReset :: "('signer, 'tx, 'addr) call \<Rightarrow> bool" where
  "isReset (CallReset w p) = True"
| "isReset _ = False"

section \<open>path/filepath on Unix\<close>

text \<open>
  \<open>filepath.Join\<close> as the standard library computes it where the separator is \<open>/\<close>:
  the elements from the first non-empty one on, joined by \<open>/\<close>, then \<open>Clean\<close>. \<open>Clean\<close>
  drops empty and \<open>.\<close> components and lets \<open>..\<close> remove the component before it
  (none to remove: dropped under the root, kept otherwise).
\<close>

fun splitSlash :: "string \<Rightarrow> string list" where
  "splitSlash [] = [[]]"
| "splitSlash (c # cs) =
     (if c = CHR ''/'' then [] # splitSlash cs
      else (case splitSlash cs of [] \<Rightarrow> [[c]] | x # xs \<Rightarrow> (c # x) # xs))"

fun cleanParts :: "bool \<Rightarrow> string list \<Rightarrow> string list \<Rightarrow> string list" where
  "cleanParts rooted [] out = rev out"
| "cleanParts rooted (c # cs) out =
     (if c = '''' \<or> c = ''.'' then cleanParts rooted cs out
      else if c = ''..'' then
        (case out of
           [] \<Rightarrow> if rooted then cleanParts rooted cs [] else cleanParts rooted cs [c]
         | x # xs \<Rightarrow> if x = ''..'' then cleanParts rooted cs (c # out) else cleanParts rooted cs xs)
      else cleanParts rooted cs (c # out))"

fun joinSlash :: "string list \<Rightarrow> string" where
  "joinSlash [] = []"
| "joinSlash [x] = x"
| "joinSlash (x # y # ys) = x @ CHR ''/'' # joinSlash (y # ys)"

definition Clean :: "string \<Rightarrow> string" where
  "Clean path =
     (case path of
        [] \<Rightarrow> ''.''
      | c # _ \<Rightarrow>
          let rooted = (c = CHR ''/'');
              parts = cleanParts rooted (splitSlash path) []
          in if rooted then CHR ''/'' # joinSlash parts
             else if parts = [] then ''.'' else joinSlash parts)"

definition filepath_Join :: "string list \<Rightarrow> string" where
  "filepath_Join elem =
     (case dropWhile (\<lambda>e. e = '''') elem of [] \<Rightarrow> '''' | e # es \<Rightarrow> Clean (joinSlash (e # es)))"

text \<open>
  For reasoning about \<open>Clean\<close>: a component without a separator, a component that is an
  ordinary name, the shape of the stack of components \<open>Clean\<close> keeps (top first:
  names above, \<open>..\<close> only at the bottom and never under the root), and the path a
  stack of components stands for.
\<close>

definition slashFree :: "string \<Rightarrow> bool" where
  "slashFree c = (CHR ''/'' \<notin> set c)"

definition plainPart :: "string \<Rightarrow> bool" where
  "plainPart c = (c \<noteq> [] \<and> c \<noteq> ''.'' \<and> c \<noteq> ''..'' \<and> slashFree c)"

fun stackShape :: "bool \<Rightarrow> string list \<Rightarrow> bool" where
  "stackShape rooted [] = True"
| "stackShape rooted (x # xs) =
     (if x = ''..'' then \<not> rooted \<and> list_all (\<lambda>y. y = ''..'') xs
      else plainPart x \<and> stackShape rooted xs)"

definition render :: "bool \<Rightarrow> string list \<Rightarrow> string" where
  "render rooted parts =
     (if rooted then CHR ''/'' # joinSlash parts
      else if parts = [] then ''.'' else joinSlash parts)"

section \<open>A concrete world and process, for the examples\<close>

text \<open>
  A transaction is the pair of the address its signature recovers to (none for an
  invalid signature) and its recipient; an address is its own \<open>Hex\<close> text. Store 7 holds
  the two addresses of the package's test, lowercased, and fails on one address;
  the snapshot file exists at the Linux default path of user alice only.
\<close>

definition addrListed :: string where
  "addrListed = ''0xf39Fd6e51aad88F6F4ce6aB8827279cffFb92266''"

definition addrClean :: string where
  "addrClean = ''0x810205E412eB4b9f8A7faEF8faE4cF08D7c680e1''"

definition addrOther :: string where
  "addrOther = ''0x70997970C51812dc3A010C7d01b50e0d17dc79C8''"

definition addrFailing :: string where
  "addrFailing = ''0x3C44CdDdB6a900fa2b585dd299e03d12FA4293BC''"

definition exWorld :: "(unit, string option \<times> string option, string) world" where
  "exWorld =
     \<lparr>Sender = (\<lambda>_ tx. case fst tx of None \<Rightarrow> Inl (errors_New ''invalid signature'')
                                    | Some a \<Rightarrow> Inr a),
      To = snd,
      Hex = (\<lambda>a. a),
      HashHex = (\<lambda>_. ''0x00''),
      CheckAddress = (\<lambda>st a.
         if a = ''0x3c44cdddb6a900fa2b585dd299e03d12fa4293bc''
         then Inl (errors_New ''store failure'')
         else Inr (st = 7 \<and> (a = ''0xf39fd6e51aad88f6f4ce6ab8827279cfffb92266''
                            \<or> a = ''0x97dca899a2278d010d678d64fbc7c718ed5d4939''))),
      logFilteredEntry = (\<lambda>_. None),
      unicode_ToLower = (\<lambda>s. s),
      user_Current = Inr \<lparr>HomeDir = ''/home/alice''\<rparr>,
      GOOS = ''linux'',
      Join = filepath_Join,
      NewBloomFilterStoreFromFile = (\<lambda>path.
         if path = ''/home/alice/geth/guardian/bloom_filter.gob'' then Inr 7
         else Inl (errors_New ''no such file'')),
      NewFileWatcherNotifier = (\<lambda>path interval. Inr 3),
      NewReloadManager = (\<lambda>flt notifier. 8),
      manager_Start = (\<lambda>m. None)\<rparr>"

text \<open>A process whose singleton is a Guardian on store 7.\<close>

definition exProcess :: "(string option \<times> string option) process" where
  "exProcess =
     \<lparr>instance = Some 0, initOnce = True,
      heap = [\<lparr>filter = Some 7, manager = Some 8\<rparr>], trace = []\<rparr>"

section \<open>Letter case of address strings\<close>

text \<open>
  Two bytes that are equal or are the upper-case and lower-case form of one ASCII
  letter, and two strings that differ in nothing else.
\<close>

definition caseVariant :: "char \<Rightarrow> char \<Rightarrow> bool" where
  "caseVariant c d =
     (c = d \<or> (isUpper c \<and> (of_char d :: nat) = of_char c + 32)
            \<or> (isUpper d \<and> (of_char c :: nat) = of_char d + 32))"

definition sameModuloCase :: "string \<Rightarrow> string \<Rightarrow> bool" where
  "sameModuloCase a b = list_all2 caseVariant a b"

section \<open>More examples\<close>

text \<open>The same world on macOS and on Windows, and two configurations without a path.\<close>

definition exWorldDarwin :: "(unit, string option \<times> string option, string) world" where
  "exWorldDarwin = exWorld\<lparr>user_Current := Inr \<lparr>HomeDir = ''/Users/alice''\<rparr>, GOOS := ''darwin''\<rparr>"

definition exWorldWindows :: "(unit, string option \<times> string option, string) world" where
  "exWorldWindows = exWorld\<lparr>GOOS := ''windows''\<rparr>"

definition exConfig :: Config where
  "exConfig = \<lparr>FilterFilePath = [], Disabled = False\<rparr>"

definition exDisabled :: Config where
  "exDisabled = \<lparr>FilterFilePath = [], Disabled = True\<rparr>"

text \<open>
  A process in which no instance was ever created, holding one zero \<open>Guardian\<close> that
  a caller made itself.
\<close>

definition exIdle :: "(string option \<times> string option) process" where
  "exIdle =
     \<lparr>instance = None, initOnce = False,
      heap = [\<lparr>filter = None, manager = None\<rparr>], trace = []\<rparr>"

definition noReset :: "('signer, 'tx, 'addr) call list \<Rightarrow> bool" where
  "noReset cs = list_all (\<lambda>c. \<not> isReset c) cs"

section \<open>Facts about the examples\<close>

lemma exWorld_sel:
  "Sender exWorld sg tx = (case fst tx of None \<Rightarrow> Inl (errors_New ''invalid signature'') | Some a \<Rightarrow> Inr a)"
  "To exWorld tx = snd tx"
  "Hex exWorld a = a"
  "HashHex exWorld tx = ''0x00''"
  "logFilteredEntry exWorld e = None"
  "user_Current exWorld = Inr \<lparr>HomeDir = ''/home/alice''\<rparr>"
  "GOOS exWorld = ''linux''"
  "Join exWorld = filepath_Join"
  "NewFileWatcherNotifier exWorld path n = Inr 3"
  "NewReloadManager exWorld flt nt = 8"
  "manager_Start exWorld m = None"
  by (simp_all add: exWorld_def)

lemma exWorld_lower:
  "ToLower exWorld addrListed = ''0xf39fd6e51aad88f6f4ce6ab8827279cfffb92266''"
  "ToLower exWorld addrClean = ''0x810205e412eb4b9f8a7faef8fae4cf08d7c680e1''"
  "ToLower exWorld addrOther = ''0x70997970c51812dc3a010c7d01b50e0d17dc79c8''"
  "ToLower exWorld addrFailing = ''0x3c44cdddb6a900fa2b585dd299e03d12fa4293bc''"
  unfolding addrListed_def addrClean_def addrOther_def addrFailing_def by code_simp+

lemma exWorld_store:
  "CheckAddress exWorld 7 ''0xf39fd6e51aad88f6f4ce6ab8827279cfffb92266'' = Inr True"
  "CheckAddress exWorld 7 ''0x810205e412eb4b9f8a7faef8fae4cf08d7c680e1'' = Inr False"
  "CheckAddress exWorld 7 ''0x70997970c51812dc3a010c7d01b50e0d17dc79c8'' = Inr False"
  "CheckAddress exWorld 7 ''0x3c44cdddb6a900fa2b585dd299e03d12fa4293bc'' = Inl (errors_New ''store failure'')"
  by (simp_all add: exWorld_def)

lemma exProcess_deref:
  "deref exProcess (Some 0) = Some \<lparr>filter = Some 7, manager = Some 8\<rparr>"
  by (simp add: deref_def exProcess_def)

section \<open>checkAddress on a Guardian that has a store\<close>

lemma deref_trace [simp]: "deref (s\<lparr>trace := t\<rparr>) p = deref s p"
  by (simp add: deref_def split: option.splits)

lemma checkAddress_hit:
  assumes "deref s p = Some g" "filter g = Some st" "CheckAddress w st (ToLower w addr) = Inr True"
  shows "checkAddress w p tx from addr s
           = (Return (True, None), s\<lparr>trace := trace s @ hitEvents w st tx from addr\<rparr>)"
  using assms by (simp add: checkAddress_def emit_def Let_def hitEvents_def split: option.splits)

lemma checkAddress_miss:
  assumes "deref s p = Some g" "filter g = Some st" "CheckAddress w st (ToLower w addr) = Inr False"
  shows "checkAddress w p tx from addr s
           = (Return (False, None), s\<lparr>trace := trace s @ [Query st (ToLower w addr)]\<rparr>)"
  using assms by (simp add: checkAddress_def emit_def Let_def)

lemma checkAddress_err:
  assumes "deref s p = Some g" "filter g = Some st" "CheckAddress w st (ToLower w addr) = Inl e"
  shows "checkAddress w p tx from addr s
           = (Return (False, Some e), s\<lparr>trace := trace s @ [Query st (ToLower w addr)]\<rparr>)"
  using assms by (simp add: checkAddress_def emit_def Let_def)

lemma queries_hitEvents [simp]: "queries (hitEvents w st tx from addr) = [(st, ToLower w addr)]"
  by (simp add: hitEvents_def split: option.splits)

lemma entries_hitEvents [simp]:
  "entries (hitEvents w st tx from addr)
     = [\<lparr>filteredAddress = addr, from' = from, transaction = tx\<rparr>]"
  by (simp add: hitEvents_def split: option.splits)

section \<open>The four ways through CheckTransaction after a recovered sender\<close>

lemma CheckTransaction_sender_hit:
  assumes "Sender w signer tx = Inr from" "deref s p = Some g" "filter g = Some st"
    "CheckAddress w st (ToLower w (Hex w from)) = Inr True"
  shows "CheckTransaction w p signer tx s
           = (Return True, s\<lparr>trace := trace s @ hitEvents w st tx (Hex w from) (Hex w from)\<rparr>)"
  by (simp add: CheckTransaction_def assms(1) checkAddress_hit [OF assms(2-4)])

lemma CheckTransaction_sender_err:
  assumes "Sender w signer tx = Inr from" "deref s p = Some g" "filter g = Some st"
    "CheckAddress w st (ToLower w (Hex w from)) = Inl e"
  shows "CheckTransaction w p signer tx s
           = (Return False,
              s\<lparr>trace := trace s @ [Query st (ToLower w (Hex w from)),
                   Log LvlError ''Error checking sender address'' [''err'', ErrorString e]]\<rparr>)"
  by (simp add: CheckTransaction_def assms(1) checkAddress_err [OF assms(2-4)] emit_def)

lemma CheckTransaction_no_recipient:
  assumes "Sender w signer tx = Inr from" "deref s p = Some g" "filter g = Some st"
    "CheckAddress w st (ToLower w (Hex w from)) = Inr False" "To w tx = None"
  shows "CheckTransaction w p signer tx s
           = (Return False, s\<lparr>trace := trace s @ [Query st (ToLower w (Hex w from))]\<rparr>)"
  by (simp add: CheckTransaction_def assms(1,5) checkAddress_miss [OF assms(2-4)])

lemma CheckTransaction_recipient:
  assumes "Sender w signer tx = Inr from" "deref s p = Some g" "filter g = Some st"
    "CheckAddress w st (ToLower w (Hex w from)) = Inr False" "To w tx = Some to"
  shows "CheckTransaction w p signer tx s =
     (case CheckAddress w st (ToLower w (Hex w to)) of
        Inl e \<Rightarrow>
          (Return False,
           s\<lparr>trace := trace s @ [Query st (ToLower w (Hex w from)), Query st (ToLower w (Hex w to)),
                Log LvlError ''Error checking recipient address'' [''err'', ErrorString e]]\<rparr>)
      | Inr ok \<Rightarrow>
          if ok
          then (Return True,
                s\<lparr>trace := trace s @ Query st (ToLower w (Hex w from))
                     # hitEvents w st tx (Hex w from) (Hex w to)\<rparr>)
          else (Return False,
                s\<lparr>trace := trace s @ [Query st (ToLower w (Hex w from)),
                     Query st (ToLower w (Hex w to))]\<rparr>))"
proof -
  let ?s1 = "s\<lparr>trace := trace s @ [Query st (ToLower w (Hex w from))]\<rparr>"
  have d: "deref ?s1 p = Some g" using assms(2) by simp
  have first: "checkAddress w p tx (Hex w from) (Hex w from) s = (Return (False, None), ?s1)"
    by (rule checkAddress_miss [OF assms(2-4)])
  show ?thesis
  proof (cases "CheckAddress w st (ToLower w (Hex w to))")
    case (Inl e)
    show ?thesis
      by (simp add: CheckTransaction_def assms(1,5) first Inl checkAddress_err [OF d assms(3) Inl]
          emit_def)
  next
    case (Inr ok)
    show ?thesis
    proof (cases ok)
      case True
      with Inr have hit: "CheckAddress w st (ToLower w (Hex w to)) = Inr True" by simp
      show ?thesis
        by (simp add: CheckTransaction_def assms(1,5) first hit checkAddress_hit [OF d assms(3) hit])
    next
      case False
      with Inr have miss: "CheckAddress w st (ToLower w (Hex w to)) = Inr False" by simp
      show ?thesis
        by (simp add: CheckTransaction_def assms(1,5) first miss
            checkAddress_miss [OF d assms(3) miss])
    qed
  qed
qed

text \<open>The verdict on a Guardian that has a store, once the sender is recovered.\<close>

lemma CheckTransaction_verdict:
  assumes "Sender w signer tx = Inr from" "deref s p = Some g" "filter g = Some st"
  shows "fst (CheckTransaction w p signer tx s) =
     Return (CheckAddress w st (ToLower w (Hex w from)) = Inr True
             \<or> (CheckAddress w st (ToLower w (Hex w from)) = Inr False
                \<and> (\<exists>to. To w tx = Some to \<and> CheckAddress w st (ToLower w (Hex w to)) = Inr True)))"
proof (cases "CheckAddress w st (ToLower w (Hex w from))")
  case (Inl e)
  then show ?thesis using CheckTransaction_sender_err [OF assms Inl] by simp
next
  case (Inr ok)
  show ?thesis
  proof (cases ok)
    case True
    with Inr have hit: "CheckAddress w st (ToLower w (Hex w from)) = Inr True" by simp
    then show ?thesis using CheckTransaction_sender_hit [OF assms hit] by simp
  next
    case False
    with Inr have miss: "CheckAddress w st (ToLower w (Hex w from)) = Inr False" by simp
    show ?thesis
    proof (cases "To w tx")
      case None
      then show ?thesis using CheckTransaction_no_recipient [OF assms miss None] miss by simp
    next
      case (Some to)
      then show ?thesis using CheckTransaction_recipient [OF assms miss Some] miss
        by (simp split: sum.splits)
    qed
  qed
qed

text \<open>The membership queries of a call, in order: the sender first, the recipient only after a miss.\<close>

lemma CheckTransaction_queries:
  assumes "Sender w signer tx = Inr from" "deref s p = Some g" "filter g = Some st"
  shows "queries (added s (snd (CheckTransaction w p signer tx s))) =
     (st, ToLower w (Hex w from))
       # (if CheckAddress w st (ToLower w (Hex w from)) = Inr False
          then (case To w tx of None \<Rightarrow> [] | Some to \<Rightarrow> [(st, ToLower w (Hex w to))])
          else [])"
proof (cases "CheckAddress w st (ToLower w (Hex w from))")
  case (Inl e)
  then show ?thesis using CheckTransaction_sender_err [OF assms Inl] by (simp add: added_def)
next
  case (Inr ok)
  show ?thesis
  proof (cases ok)
    case True
    with Inr have hit: "CheckAddress w st (ToLower w (Hex w from)) = Inr True" by simp
    then show ?thesis using CheckTransaction_sender_hit [OF assms hit] by (simp add: added_def)
  next
    case False
    with Inr have miss: "CheckAddress w st (ToLower w (Hex w from)) = Inr False" by simp
    show ?thesis
    proof (cases "To w tx")
      case None
      then show ?thesis using CheckTransaction_no_recipient [OF assms miss None] miss
        by (simp add: added_def)
    next
      case (Some to)
      then show ?thesis using CheckTransaction_recipient [OF assms miss Some] miss
        by (simp add: added_def split: sum.splits)
    qed
  qed
qed

section \<open>Claims about CheckTransaction\<close>

text \<open>
  C3. When sender recovery (\<open>types.Sender\<close>) fails, \<open>CheckTransaction\<close> returns \<open>false\<close>:
  it does not panic, whatever the receiver (also \<open>nil\<close>), and the one thing it does is log
  the failure, so no membership test is made.
\<close>

theorem CheckTransaction_recovery_failure:
  assumes "Sender w signer tx = Inl err"
  shows "CheckTransaction w p signer tx s =
           (Return False,
            s\<lparr>trace := trace s @
                 [Log LvlError ''Failed to extract 'from' address'' [''err'', ErrorString err]]\<rparr>)
         \<and> queries (added s (snd (CheckTransaction w p signer tx s))) = []"
  using assms by (simp add: CheckTransaction_def emit_def added_def)

theorem CheckTransaction_recovery_failure_witness:
  "Sender exWorld () (None, Some addrListed) = Inl (errors_New ''invalid signature'')
   \<and> fst (CheckTransaction exWorld None () (None, Some addrListed) exProcess) = Return False
   \<and> queries (added exProcess (snd (CheckTransaction exWorld None () (None, Some addrListed) exProcess))) = []"
proof -
  have h: "Sender exWorld () (None, Some addrListed) = Inl (errors_New ''invalid signature'')"
    by (simp add: exWorld_sel)
  show ?thesis
    using h CheckTransaction_recovery_failure [OF h, of None exProcess]
    by (simp add: added_def)
qed

text \<open>
  C1, as the code has it. When the sender is recovered and the store fails on the
  sender's lookup, \<open>CheckTransaction\<close> logs the error and returns \<open>false\<close> at once: the
  sender's query is the only one, the recipient is not tested.
\<close>

theorem CheckTransaction_sender_lookup_error:
  assumes "Sender w signer tx = Inr from" "deref s p = Some g" "filter g = Some st"
    "CheckAddress w st (ToLower w (Hex w from)) = Inl e"
  shows "CheckTransaction w p signer tx s =
           (Return False,
            s\<lparr>trace := trace s @ [Query st (ToLower w (Hex w from)),
                 Log LvlError ''Error checking sender address'' [''err'', ErrorString e]]\<rparr>)
         \<and> queries (added s (snd (CheckTransaction w p signer tx s)))
             = [(st, ToLower w (Hex w from))]"
  by (simp add: CheckTransaction_sender_err [OF assms] added_def)

theorem CheckTransaction_sender_lookup_error_witness:
  "fst (CheckTransaction exWorld (Some 0) () (Some addrFailing, Some addrOther) exProcess)
     = Return False
   \<and> queries (added exProcess
        (snd (CheckTransaction exWorld (Some 0) () (Some addrFailing, Some addrOther) exProcess)))
       = [(7, ''0x3c44cdddb6a900fa2b585dd299e03d12fa4293bc'')]"
proof -
  have h1: "Sender exWorld () (Some addrFailing, Some addrOther) = Inr addrFailing"
    by (simp add: exWorld_sel)
  have h2: "filter \<lparr>filter = Some 7, manager = Some 8\<rparr> = Some 7" by simp
  have h3: "CheckAddress exWorld 7 (ToLower exWorld (Hex exWorld addrFailing))
              = Inl (errors_New ''store failure'')"
    by (simp add: exWorld_sel exWorld_lower exWorld_store)
  show ?thesis
    using CheckTransaction_sender_lookup_error [OF h1 exProcess_deref h2 h3]
    by (simp add: exWorld_sel exWorld_lower added_def)
qed

text \<open>
  C1 as stated fails: the sender's lookup fails, the recipient is listed (its lookup
  is a hit), and \<open>CheckTransaction\<close> returns \<open>false\<close> without querying the recipient.
\<close>

theorem CheckTransaction_sender_error_skips_recipient:
  "Sender exWorld () (Some addrFailing, Some addrListed) = Inr addrFailing
   \<and> To exWorld (Some addrFailing, Some addrListed) = Some addrListed
   \<and> CheckAddress exWorld 7 (ToLower exWorld (Hex exWorld addrFailing))
       = Inl (errors_New ''store failure'')
   \<and> CheckAddress exWorld 7 (ToLower exWorld (Hex exWorld addrListed)) = Inr True
   \<and> fst (CheckTransaction exWorld (Some 0) () (Some addrFailing, Some addrListed) exProcess)
       = Return False
   \<and> queries (added exProcess
        (snd (CheckTransaction exWorld (Some 0) () (Some addrFailing, Some addrListed) exProcess)))
       = [(7, ToLower exWorld addrFailing)]"
proof -
  have h1: "Sender exWorld () (Some addrFailing, Some addrListed) = Inr addrFailing"
    by (simp add: exWorld_sel)
  have h2: "filter \<lparr>filter = Some 7, manager = Some 8\<rparr> = Some 7" by simp
  have h3: "CheckAddress exWorld 7 (ToLower exWorld (Hex exWorld addrFailing))
              = Inl (errors_New ''store failure'')"
    by (simp add: exWorld_sel exWorld_lower exWorld_store)
  have h4: "CheckAddress exWorld 7 (ToLower exWorld (Hex exWorld addrListed)) = Inr True"
    by (simp add: exWorld_sel exWorld_lower exWorld_store)
  show ?thesis
    using h1 h3 h4 CheckTransaction_sender_err [OF h1 exProcess_deref h2 h3]
    by (simp add: exWorld_sel added_def exProcess_def)
qed

text \<open>
  C2, as the code has it. The sender is tested first: its query is the first of the
  call, and the recipient is queried only after the sender's lookup returned a miss. If the sender's
  lookup is a hit, \<open>CheckTransaction\<close> returns \<open>true\<close> with the sender's query as
  the only query and exactly one log entry,
  \<open>filteredAddress\<close> and \<open>from\<close> both the sender. If the sender's lookup is a miss and the
  recipient's is a hit, it returns \<open>true\<close>, the queries are the sender's then the
  recipient's, and the one entry has \<open>filteredAddress\<close> the recipient and \<open>from\<close> the
  sender.
\<close>

theorem CheckTransaction_first_hit:
  assumes "Sender w signer tx = Inr from" "deref s p = Some g" "filter g = Some st"
  shows "queries (added s (snd (CheckTransaction w p signer tx s))) =
           (st, ToLower w (Hex w from))
             # (if CheckAddress w st (ToLower w (Hex w from)) = Inr False
                then (case To w tx of None \<Rightarrow> [] | Some to \<Rightarrow> [(st, ToLower w (Hex w to))])
                else [])
       \<and> (CheckAddress w st (ToLower w (Hex w from)) = Inr True \<longrightarrow>
           fst (CheckTransaction w p signer tx s) = Return True
         \<and> queries (added s (snd (CheckTransaction w p signer tx s)))
              = [(st, ToLower w (Hex w from))]
         \<and> entries (added s (snd (CheckTransaction w p signer tx s)))
              = [\<lparr>filteredAddress = Hex w from, from' = Hex w from, transaction = tx\<rparr>])
       \<and> (CheckAddress w st (ToLower w (Hex w from)) = Inr False \<and> To w tx = Some to
            \<and> CheckAddress w st (ToLower w (Hex w to)) = Inr True \<longrightarrow>
           fst (CheckTransaction w p signer tx s) = Return True
         \<and> queries (added s (snd (CheckTransaction w p signer tx s)))
              = [(st, ToLower w (Hex w from)), (st, ToLower w (Hex w to))]
         \<and> entries (added s (snd (CheckTransaction w p signer tx s)))
              = [\<lparr>filteredAddress = Hex w to, from' = Hex w from, transaction = tx\<rparr>])"
proof (intro conjI)
  show "queries (added s (snd (CheckTransaction w p signer tx s))) =
           (st, ToLower w (Hex w from))
             # (if CheckAddress w st (ToLower w (Hex w from)) = Inr False
                then (case To w tx of None \<Rightarrow> [] | Some to \<Rightarrow> [(st, ToLower w (Hex w to))])
                else [])"
    by (rule CheckTransaction_queries [OF assms])
  show "CheckAddress w st (ToLower w (Hex w from)) = Inr True \<longrightarrow>
           fst (CheckTransaction w p signer tx s) = Return True
         \<and> queries (added s (snd (CheckTransaction w p signer tx s)))
              = [(st, ToLower w (Hex w from))]
         \<and> entries (added s (snd (CheckTransaction w p signer tx s)))
              = [\<lparr>filteredAddress = Hex w from, from' = Hex w from, transaction = tx\<rparr>]"
    by (simp add: CheckTransaction_sender_hit [OF assms] added_def)
  show "CheckAddress w st (ToLower w (Hex w from)) = Inr False \<and> To w tx = Some to
            \<and> CheckAddress w st (ToLower w (Hex w to)) = Inr True \<longrightarrow>
           fst (CheckTransaction w p signer tx s) = Return True
         \<and> queries (added s (snd (CheckTransaction w p signer tx s)))
              = [(st, ToLower w (Hex w from)), (st, ToLower w (Hex w to))]
         \<and> entries (added s (snd (CheckTransaction w p signer tx s)))
              = [\<lparr>filteredAddress = Hex w to, from' = Hex w from, transaction = tx\<rparr>]"
    by (simp add: CheckTransaction_recipient [OF assms] added_def)
qed

theorem CheckTransaction_first_hit_witness:
  "(fst (CheckTransaction exWorld (Some 0) () (Some addrListed, Some addrListed) exProcess)
      = Return True
    \<and> queries (added exProcess
         (snd (CheckTransaction exWorld (Some 0) () (Some addrListed, Some addrListed) exProcess)))
        = [(7, ''0xf39fd6e51aad88f6f4ce6ab8827279cfffb92266'')]
    \<and> entries (added exProcess
         (snd (CheckTransaction exWorld (Some 0) () (Some addrListed, Some addrListed) exProcess)))
        = [\<lparr>filteredAddress = addrListed, from' = addrListed,
            transaction = (Some addrListed, Some addrListed)\<rparr>])
   \<and> (fst (CheckTransaction exWorld (Some 0) () (Some addrClean, Some addrListed) exProcess)
      = Return True
    \<and> queries (added exProcess
         (snd (CheckTransaction exWorld (Some 0) () (Some addrClean, Some addrListed) exProcess)))
        = [(7, ''0x810205e412eb4b9f8a7faef8fae4cf08d7c680e1''),
           (7, ''0xf39fd6e51aad88f6f4ce6ab8827279cfffb92266'')]
    \<and> entries (added exProcess
         (snd (CheckTransaction exWorld (Some 0) () (Some addrClean, Some addrListed) exProcess)))
        = [\<lparr>filteredAddress = addrListed, from' = addrClean,
            transaction = (Some addrClean, Some addrListed)\<rparr>])"
proof -
  have g: "filter \<lparr>filter = Some 7, manager = Some 8\<rparr> = Some 7" by simp
  have a: "Sender exWorld () (Some addrListed, Some addrListed) = Inr addrListed"
    by (simp add: exWorld_sel)
  have b: "Sender exWorld () (Some addrClean, Some addrListed) = Inr addrClean"
    by (simp add: exWorld_sel)
  show ?thesis
    using CheckTransaction_first_hit [OF a exProcess_deref g, of addrListed]
          CheckTransaction_first_hit [OF b exProcess_deref g, of addrListed]
    by (simp add: exWorld_sel exWorld_lower exWorld_store)
qed

text \<open>
  C2 as stated fails where only the recipient is listed and the sender's lookup is
  not a miss but a store failure: the sender is no hit, the recipient's lookup is a
  hit, and \<open>CheckTransaction\<close> returns \<open>false\<close> and hands no entry to the logger.
\<close>

theorem CheckTransaction_recipient_hit_unreported:
  "Sender exWorld () (Some addrFailing, Some addrListed) = Inr addrFailing
   \<and> To exWorld (Some addrFailing, Some addrListed) = Some addrListed
   \<and> CheckAddress exWorld 7 (ToLower exWorld (Hex exWorld addrFailing)) \<noteq> Inr True
   \<and> CheckAddress exWorld 7 (ToLower exWorld (Hex exWorld addrListed)) = Inr True
   \<and> fst (CheckTransaction exWorld (Some 0) () (Some addrFailing, Some addrListed) exProcess)
       \<noteq> Return True
   \<and> fst (CheckTransaction exWorld (Some 0) () (Some addrFailing, Some addrListed) exProcess)
       = Return False
   \<and> entries (added exProcess
        (snd (CheckTransaction exWorld (Some 0) () (Some addrFailing, Some addrListed) exProcess)))
       = []"
proof -
  have h1: "Sender exWorld () (Some addrFailing, Some addrListed) = Inr addrFailing"
    by (simp add: exWorld_sel)
  have h2: "filter \<lparr>filter = Some 7, manager = Some 8\<rparr> = Some 7" by simp
  have h3: "CheckAddress exWorld 7 (ToLower exWorld (Hex exWorld addrFailing))
              = Inl (errors_New ''store failure'')"
    by (simp add: exWorld_sel exWorld_lower exWorld_store)
  have h4: "CheckAddress exWorld 7 (ToLower exWorld (Hex exWorld addrListed)) = Inr True"
    by (simp add: exWorld_sel exWorld_lower exWorld_store)
  show ?thesis
    using h1 h3 h4 CheckTransaction_sender_err [OF h1 exProcess_deref h2 h3]
    by (simp add: exWorld_sel added_def exProcess_def)
qed

text \<open>
  C5. A contract creation (\<open>tx.To()\<close> is \<open>nil\<close>) whose sender is not a hit returns
  \<open>false\<close> after the sender's query alone; and whenever neither the sender's lookup nor
  that of the recipient, if there is one, is a hit, \<open>CheckTransaction\<close> returns \<open>false\<close>.
\<close>

theorem CheckTransaction_no_hit:
  assumes "deref s p = Some g" "filter g = Some st"
  shows "(Sender w signer tx = Inr from \<and> To w tx = None
            \<and> CheckAddress w st (ToLower w (Hex w from)) \<noteq> Inr True \<longrightarrow>
           fst (CheckTransaction w p signer tx s) = Return False
         \<and> queries (added s (snd (CheckTransaction w p signer tx s)))
             = [(st, ToLower w (Hex w from))])
       \<and> ((\<forall>a. Sender w signer tx = Inr a \<longrightarrow>
               CheckAddress w st (ToLower w (Hex w a)) \<noteq> Inr True
             \<and> (\<forall>to. To w tx = Some to \<longrightarrow> CheckAddress w st (ToLower w (Hex w to)) \<noteq> Inr True)) \<longrightarrow>
           fst (CheckTransaction w p signer tx s) = Return False)"
proof (intro conjI impI)
  assume h: "Sender w signer tx = Inr from \<and> To w tx = None
               \<and> CheckAddress w st (ToLower w (Hex w from)) \<noteq> Inr True"
  then have sd: "Sender w signer tx = Inr from" and no: "To w tx = None" by simp_all
  show "fst (CheckTransaction w p signer tx s) = Return False"
    using CheckTransaction_verdict [OF sd assms] h by simp
  show "queries (added s (snd (CheckTransaction w p signer tx s)))
          = [(st, ToLower w (Hex w from))]"
  proof (cases "CheckAddress w st (ToLower w (Hex w from))")
    case (Inl e)
    then show ?thesis using CheckTransaction_sender_err [OF sd assms Inl] by (simp add: added_def)
  next
    case (Inr ok)
    with h have miss: "CheckAddress w st (ToLower w (Hex w from)) = Inr False" by simp
    show ?thesis using CheckTransaction_no_recipient [OF sd assms miss no] by (simp add: added_def)
  qed
next
  assume h: "\<forall>a. Sender w signer tx = Inr a \<longrightarrow>
               CheckAddress w st (ToLower w (Hex w a)) \<noteq> Inr True
             \<and> (\<forall>to. To w tx = Some to \<longrightarrow> CheckAddress w st (ToLower w (Hex w to)) \<noteq> Inr True)"
  show "fst (CheckTransaction w p signer tx s) = Return False"
  proof (cases "Sender w signer tx")
    case (Inl err)
    then show ?thesis by (simp add: CheckTransaction_def)
  next
    case (Inr a)
    then show ?thesis using CheckTransaction_verdict [OF Inr assms] h by auto
  qed
qed

theorem CheckTransaction_no_hit_witness:
  "(fst (CheckTransaction exWorld (Some 0) () (Some addrClean, None) exProcess) = Return False
    \<and> queries (added exProcess
         (snd (CheckTransaction exWorld (Some 0) () (Some addrClean, None) exProcess)))
        = [(7, ''0x810205e412eb4b9f8a7faef8fae4cf08d7c680e1'')])
   \<and> fst (CheckTransaction exWorld (Some 0) () (Some addrClean, Some addrOther) exProcess)
       = Return False"
proof -
  have g: "filter \<lparr>filter = Some 7, manager = Some 8\<rparr> = Some 7" by simp
  show ?thesis
    using CheckTransaction_no_hit [OF exProcess_deref g, of exWorld "()" "(Some addrClean, None)" addrClean]
          CheckTransaction_no_hit [OF exProcess_deref g, of exWorld "()" "(Some addrClean, Some addrOther)" addrClean]
    by (simp add: exWorld_sel exWorld_lower exWorld_store)
qed

text \<open>
  C10. \<open>CheckTransaction\<close> changes nothing but the effects: the singleton pointer, the
  guard and every allocated \<open>Guardian\<close> (its \<open>filter\<close> and \<open>manager\<close>) are as before, the
  earlier effects are kept, and what the call adds are log lines, membership queries
  and log entries only.
\<close>

theorem CheckTransaction_frame:
  "snd (CheckTransaction w p signer tx s)
     = s\<lparr>trace := trace (snd (CheckTransaction w p signer tx s))\<rparr>
   \<and> instance (snd (CheckTransaction w p signer tx s)) = instance s
   \<and> heap (snd (CheckTransaction w p signer tx s)) = heap s
   \<and> deref (snd (CheckTransaction w p signer tx s)) p = deref s p
   \<and> take (length (trace s)) (trace (snd (CheckTransaction w p signer tx s))) = trace s
   \<and> list_all isScreeningEvent (added s (snd (CheckTransaction w p signer tx s)))"
  by (simp add: CheckTransaction_def checkAddress_def emit_def Let_def added_def
      isScreeningEvent_def deref_def split: option.splits sum.splits)

theorem CheckTransaction_frame_witness:
  "instance (snd (CheckTransaction exWorld (Some 0) () (Some addrClean, Some addrListed) exProcess))
     = Some 0
   \<and> heap (snd (CheckTransaction exWorld (Some 0) () (Some addrClean, Some addrListed) exProcess))
     = [\<lparr>filter = Some 7, manager = Some 8\<rparr>]"
  using CheckTransaction_frame [of exWorld "Some 0" "()" "(Some addrClean, Some addrListed)" exProcess]
  by (simp add: exProcess_def)

section \<open>Claims about checkAddress\<close>

lemma toLowerByte_of_upper:
  assumes "isUpper c" "(of_char d :: nat) = of_char c + 32"
  shows "toLowerByte c = d" "toLowerByte d = d"
proof -
  have "char_of ((of_char c :: nat) + 32) = char_of (of_char d :: nat)" using assms(2) by simp
  then show "toLowerByte c = d" using assms(1) by (simp add: toLowerByte_def)
  have "\<not> isUpper d" using assms by (simp add: isUpper_def)
  then show "toLowerByte d = d" by (simp add: toLowerByte_def)
qed

lemma caseVariant_toLowerByte: "caseVariant c d \<Longrightarrow> toLowerByte c = toLowerByte d"
  unfolding caseVariant_def using toLowerByte_of_upper by metis

lemma caseVariant_ascii:
  "caseVariant c d \<Longrightarrow> (of_char c :: nat) < 128 \<Longrightarrow> (of_char d :: nat) < 128"
  by (auto simp add: caseVariant_def isUpper_def)

lemma sameModuloCase_map: "sameModuloCase a b \<Longrightarrow> map toLowerByte a = map toLowerByte b"
  unfolding sameModuloCase_def
  by (induction rule: list_all2_induct) (simp_all add: caseVariant_toLowerByte)

lemma sameModuloCase_isASCII: "sameModuloCase a b \<Longrightarrow> isASCII a \<Longrightarrow> isASCII b"
  unfolding sameModuloCase_def isASCII_def
  by (induction rule: list_all2_induct) (auto dest: caseVariant_ascii)

lemma ToLower_sameModuloCase:
  assumes "isASCII a" "sameModuloCase a b"
  shows "ToLower w a = ToLower w b"
  using assms sameModuloCase_isASCII [OF assms(2,1)] sameModuloCase_map [OF assms(2)]
  by (simp add: ToLower_def)

lemma checkAddress_outcome:
  "fst (checkAddress w p tx from addr s) =
     (case deref s p of
        None \<Rightarrow> Panic
      | Some g \<Rightarrow>
          (case filter g of
             None \<Rightarrow> Panic
           | Some st \<Rightarrow>
               (case CheckAddress w st (ToLower w addr) of
                  Inl e \<Rightarrow> Return (False, Some e)
                | Inr ok \<Rightarrow> Return (ok, None))))"
  by (simp add: checkAddress_def Let_def split: option.splits sum.splits)

lemma checkAddress_queries:
  "queries (added s (snd (checkAddress w p tx from addr s))) =
     (case deref s p of
        None \<Rightarrow> []
      | Some g \<Rightarrow> (case filter g of None \<Rightarrow> [] | Some st \<Rightarrow> [(st, ToLower w addr)]))"
  by (simp add: checkAddress_def Let_def added_def emit_def split: option.splits sum.splits)

text \<open>
  C4. \<open>checkAddress\<close> sends the store the lower-case form of the address. For an
  address string of ASCII bytes, as every \<open>Hex()\<close> text is, that form is the string with
  each upper-case letter replaced by its lower-case one, so two strings that differ
  only in the case of letters send the same query and get the same \<open>(bool, error)\<close>.
\<close>

theorem checkAddress_case_insensitive:
  assumes "isASCII a" "sameModuloCase a b"
  shows "(deref s p = Some g \<and> filter g = Some st \<longrightarrow>
            queries (added s (snd (checkAddress w p tx from a s))) = [(st, ToLower w a)]
          \<and> ToLower w a = map toLowerByte a)
       \<and> ToLower w a = ToLower w b
       \<and> queries (added s (snd (checkAddress w p tx from a s)))
           = queries (added s (snd (checkAddress w p tx from2 b s)))
       \<and> fst (checkAddress w p tx from a s) = fst (checkAddress w p tx from2 b s)"
proof -
  have eq: "ToLower w a = ToLower w b" by (rule ToLower_sameModuloCase [OF assms])
  have low: "ToLower w a = map toLowerByte a" using assms(1) by (simp add: ToLower_def)
  have q: "deref s p = Some g \<and> filter g = Some st \<longrightarrow>
             queries (added s (snd (checkAddress w p tx from a s))) = [(st, ToLower w a)]"
    by (simp add: checkAddress_queries)
  have qq: "queries (added s (snd (checkAddress w p tx from a s)))
              = queries (added s (snd (checkAddress w p tx from2 b s)))"
    by (simp only: checkAddress_queries eq)
  have r: "fst (checkAddress w p tx from a s) = fst (checkAddress w p tx from2 b s)"
    by (simp only: checkAddress_outcome eq)
  show ?thesis using eq low q qq r by blast
qed

lemma ex_case:
  "isASCII addrListed"
  "sameModuloCase addrListed ''0xF39FD6E51AAD88f6f4ce6ab8827279cfffb92266''"
  unfolding addrListed_def by code_simp+

theorem checkAddress_case_insensitive_witness:
  "fst (checkAddress exWorld (Some 0) (None, None) addrClean addrListed exProcess)
     = fst (checkAddress exWorld (Some 0) (None, None) addrClean
              ''0xF39FD6E51AAD88f6f4ce6ab8827279cfffb92266'' exProcess)
   \<and> queries (added exProcess
        (snd (checkAddress exWorld (Some 0) (None, None) addrClean addrListed exProcess)))
     = [(7, ''0xf39fd6e51aad88f6f4ce6ab8827279cfffb92266'')]"
proof -
  have g: "filter \<lparr>filter = Some 7, manager = Some 8\<rparr> = Some 7" by simp
  show ?thesis
    using checkAddress_case_insensitive [OF ex_case, where s = exProcess and p = "Some 0"
        and g = "\<lparr>filter = Some 7, manager = Some 8\<rparr>" and st = 7 and w = exWorld
        and tx = "(None, None)" and ?from = addrClean and ?from2.0 = addrClean]
      exProcess_deref g
    by (simp add: exWorld_lower)
qed

section \<open>The one-shot guard and the singleton\<close>

lemma InitInstance_used: "initOnce s \<Longrightarrow> InitInstance w config s = s"
  by (simp add: InitInstance_def)

lemma InitInstance_disabled:
  "\<not> initOnce s \<Longrightarrow> Disabled config \<Longrightarrow>
     InitInstance w config s
       = s\<lparr>trace := trace s @ [Log LvlWarn ''Guardian is disabled'' []], initOnce := True\<rparr>"
  by (simp add: InitInstance_def emit_def)

lemma newGuardian_frame:
  "instance (snd (newGuardian w config s)) = instance s
   \<and> initOnce (snd (newGuardian w config s)) = initOnce s
   \<and> (isl (fst (newGuardian w config s)) \<longrightarrow> heap (snd (newGuardian w config s)) = heap s)"
  by (simp add: newGuardian_def emit_def Let_def split: sum.splits option.splits)

lemma InitInstance_consumes: "initOnce (InitInstance w config s)"
  by (simp add: InitInstance_def split: prod.splits sum.splits)

lemma InitInstance_failure:
  assumes "\<not> initOnce s" "\<not> Disabled config" "isl (fst (newGuardian w config s))"
  shows "instance (InitInstance w config s) = None \<and> heap (InitInstance w config s) = heap s"
proof -
  obtain r s1 where ng: "newGuardian w config s = (r, s1)" by (cases "newGuardian w config s")
  with assms(3) obtain err where r: "r = Inl err" by (cases r) simp_all
  have "heap s1 = heap s" using newGuardian_frame [of w config s] ng r by simp
  then show ?thesis using assms(1,2) ng r by (simp add: InitInstance_def emit_def)
qed

lemma Stop_frame:
  "instance (snd (Stop w p s)) = instance s \<and> initOnce (snd (Stop w p s)) = initOnce s
   \<and> heap (snd (Stop w p s)) = heap s"
  by (simp add: Stop_def emit_def split: option.splits)

lemma CheckTransaction_keeps:
  "instance (snd (CheckTransaction w p signer tx s)) = instance s
   \<and> initOnce (snd (CheckTransaction w p signer tx s)) = initOnce s"
  by (simp add: CheckTransaction_def checkAddress_def emit_def Let_def
      split: option.splits sum.splits)

lemma Reset_no_instance:
  "instance s = None \<Longrightarrow> instance (snd (Reset w p s)) = None"
  by (simp add: Reset_def split: option.splits)

lemma step_keeps_guard:
  assumes "\<not> isReset c" "initOnce s" "instance s = None"
  shows "initOnce (step c s) \<and> instance (step c s) = None"
  using assms by (cases c) (simp_all add: InitInstance_used Stop_frame CheckTransaction_keeps)

lemma run_keeps_guard:
  "noReset cs \<Longrightarrow> initOnce s \<Longrightarrow> instance s = None \<Longrightarrow>
     initOnce (run cs s) \<and> instance (run cs s) = None"
proof (induction cs arbitrary: s)
  case Nil
  then show ?case by simp
next
  case (Cons c cs)
  from Cons.prems have c: "\<not> isReset c" and cs: "noReset cs" by (simp_all add: noReset_def)
  have "initOnce (step c s) \<and> instance (step c s) = None"
    by (rule step_keeps_guard [OF c Cons.prems(2,3)])
  then show ?case using Cons.IH [OF cs] by simp
qed

lemma step_no_instance:
  assumes "\<not> successfulInit c s" "instance s = None"
  shows "instance (step c s) = None"
  using assms by (cases c) (simp_all add: Stop_frame CheckTransaction_keeps Reset_no_instance)

lemma run_no_instance:
  "noSuccessfulInit cs s \<Longrightarrow> instance s = None \<Longrightarrow> instance (run cs s) = None"
proof (induction cs arbitrary: s)
  case Nil
  then show ?case by simp
next
  case (Cons c cs)
  from Cons.prems(1) have c: "\<not> successfulInit c s" and cs: "noSuccessfulInit cs (step c s)"
    by simp_all
  have "instance (step c s) = None" by (rule step_no_instance [OF c Cons.prems(2)])
  then show ?case using Cons.IH [OF cs] by simp
qed

lemma Reset_guard_inv:
  assumes "initOnce s \<or> instance s = None"
  shows "initOnce (snd (Reset w p s)) \<or> instance (snd (Reset w p s)) = None"
proof (cases "instance s")
  case None
  then show ?thesis by (simp add: Reset_no_instance)
next
  case (Some i)
  obtain r s1 where st: "Stop w (Some i) s = (r, s1)" by (cases "Stop w (Some i) s")
  have "initOnce s1 = initOnce s" using Stop_frame [of w "Some i" s] st by simp
  then have "initOnce s1" using assms Some by simp
  then show ?thesis by (simp add: Reset_def Some st split: outcome.splits option.splits)
qed

text \<open>While the guard is unused there is no singleton, in every process the calls can reach.\<close>

lemma step_guard_inv:
  assumes "initOnce s \<or> instance s = None"
  shows "initOnce (step c s) \<or> instance (step c s) = None"
proof (cases c)
  case (CallInitInstance w config)
  then show ?thesis by (simp add: InitInstance_consumes)
next
  case CallGetInstance
  then show ?thesis using assms by simp
next
  case (CallCheckTransaction w p signer tx)
  then show ?thesis using assms by (simp add: CheckTransaction_keeps)
next
  case (CallStop w p)
  then show ?thesis using assms by (simp add: Stop_frame)
next
  case (CallReset w p)
  then show ?thesis using Reset_guard_inv [OF assms] by simp
qed

lemma run_guard_inv:
  "initOnce s \<or> instance s = None \<Longrightarrow> initOnce (run cs s) \<or> instance (run cs s) = None"
  by (induction cs arbitrary: s) (simp_all add: step_guard_inv)

lemma GetInstance_nil:
  "instance s = None \<Longrightarrow> GetInstance s = (None, Some (errors_New ''guardian is not initialized''))"
  by (simp add: GetInstance_def)

section \<open>Claims about the singleton lifecycle\<close>

lemma exWorld_files:
  "NewBloomFilterStoreFromFile exWorld path =
     (if path = ''/home/alice/geth/guardian/bloom_filter.gob'' then Inr 7
      else Inl (errors_New ''no such file''))"
  by (simp add: exWorld_def)

lemma ex_paths:
  "filepath_Join [filepath_Join [''/home/alice'', linuxPath], bloomFilterFilename]
     = ''/home/alice/geth/guardian/bloom_filter.gob''"
  "filepath_Join [filepath_Join [''/Users/alice'', darwinPath], bloomFilterFilename]
     = ''/Users/alice/Library/Story/geth/guardian/bloom_filter.gob''"
  by code_simp+

lemma ex_init:
  "InitInstance exWorld exConfig process0 =
     \<lparr>instance = Some 0, initOnce = True,
      heap = [\<lparr>filter = Some 7, manager = Some 8\<rparr>],
      trace = [Load ''/home/alice/geth/guardian/bloom_filter.gob'',
               Watch ''/home/alice/geth/guardian/bloom_filter.gob'' 10,
               Start 8,
               Log LvlInfo ''Guardian initialized''
                 [''file'', ''/home/alice/geth/guardian/bloom_filter.gob'']]\<rparr>"
  by (simp add: InitInstance_def newGuardian_def getDefaultPath_def exWorld_sel exWorld_files
      exConfig_def process0_def emit_def ex_paths Let_def)

lemma ex_init_disabled:
  "InitInstance exWorld exDisabled process0 =
     \<lparr>instance = None, initOnce = True, heap = [],
      trace = [Log LvlWarn ''Guardian is disabled'' []]\<rparr>"
  by (simp add: InitInstance_def exDisabled_def process0_def emit_def)

lemma ex_init_windows:
  "InitInstance exWorldWindows exConfig process0 =
     \<lparr>instance = None, initOnce = True, heap = [],
      trace = [Log LvlError ''Failed to initialize Guardian''
                 [''error'', ''unsupported OS for guardian'']]\<rparr>"
  by (simp add: InitInstance_def newGuardian_def getDefaultPath_def exWorldWindows_def exWorld_def
      exConfig_def process0_def emit_def)

text \<open>
  C6, as the code has it. \<open>InitInstance\<close> with a \<open>Disabled\<close> configuration constructs
  no \<open>Guardian\<close>: nothing is allocated, the singleton pointer stays as it is, and the
  only effect is the warning (none at all when the guard is already used). When no
  instance is installed at that call, every later \<open>GetInstance\<close> returns \<open>nil\<close> with the
  "guardian is not initialized" error, as long as no \<open>InitInstance\<close> in between installs
  an instance.
\<close>

theorem InitInstance_Disabled:
  assumes "Disabled config"
  shows "heap (InitInstance w config s) = heap s
       \<and> instance (InitInstance w config s) = instance s
       \<and> added s (InitInstance w config s)
           = (if initOnce s then [] else [Log LvlWarn ''Guardian is disabled'' []])
       \<and> (instance s = None \<and> noSuccessfulInit cs (InitInstance w config s) \<longrightarrow>
            GetInstance (run cs (InitInstance w config s))
              = (None, Some (errors_New ''guardian is not initialized'')))"
proof -
  have a: "heap (InitInstance w config s) = heap s \<and> instance (InitInstance w config s) = instance s
       \<and> added s (InitInstance w config s)
           = (if initOnce s then [] else [Log LvlWarn ''Guardian is disabled'' []])"
    using assms by (simp add: InitInstance_def emit_def added_def)
  have b: "instance s = None \<and> noSuccessfulInit cs (InitInstance w config s) \<longrightarrow>
            GetInstance (run cs (InitInstance w config s))
              = (None, Some (errors_New ''guardian is not initialized''))"
  proof
    assume h: "instance s = None \<and> noSuccessfulInit cs (InitInstance w config s)"
    then have "instance (InitInstance w config s) = None" using a by simp
    then have "instance (run cs (InitInstance w config s)) = None"
      using run_no_instance h by blast
    then show "GetInstance (run cs (InitInstance w config s))
              = (None, Some (errors_New ''guardian is not initialized''))"
      by (rule GetInstance_nil)
  qed
  show ?thesis using a b by blast
qed

theorem InitInstance_Disabled_witness:
  "GetInstance (run [CallInitInstance exWorld exConfig, CallGetInstance]
                  (InitInstance exWorld exDisabled process0))
     = (None, Some (errors_New ''guardian is not initialized''))
   \<and> heap (InitInstance exWorld exDisabled process0) = []"
proof -
  have d: "Disabled exDisabled" by (simp add: exDisabled_def)
  have n: "noSuccessfulInit [CallInitInstance exWorld exConfig, CallGetInstance]
             (InitInstance exWorld exDisabled process0)"
    by (simp add: ex_init_disabled InitInstance_used)
  have i: "instance (process0 :: (string option \<times> string option) process) = None"
    by (simp add: process0_def)
  show ?thesis
    using InitInstance_Disabled [OF d, of exWorld process0
        "[CallInitInstance exWorld exConfig, CallGetInstance]"] n i
    by (simp add: process0_def)
qed

text \<open>
  C6 as stated fails when an instance is installed already: after a successful
  \<open>InitInstance\<close>, a second one with \<open>Disabled\<close> set does nothing, and \<open>GetInstance\<close> returns
  the instance and no error.
\<close>

theorem InitInstance_Disabled_after_init:
  "Disabled exDisabled
   \<and> GetInstance (InitInstance exWorld exDisabled (InitInstance exWorld exConfig process0))
       = (Some 0, None)"
  by (simp add: ex_init InitInstance_used GetInstance_def exDisabled_def)

text \<open>
  C9. In a process reached from its start by any calls, take an \<open>InitInstance\<close> that
  finds the guard unused and installs nothing, because the configuration is \<open>Disabled\<close>
  or because \<open>newGuardian\<close> fails. It uses the guard up and leaves no instance; after
  any later calls other than \<open>Reset\<close>, an \<open>InitInstance\<close> with any world and configuration
  changes nothing, and \<open>GetInstance\<close> returns the "not initialized" error.
\<close>

theorem InitInstance_guard_consumed:
  assumes "s = run cs0 process0" "\<not> initOnce s"
    "Disabled config \<or> isl (fst (newGuardian w config s))" "noReset cs"
  shows "initOnce (InitInstance w config s) \<and> instance (InitInstance w config s) = None
       \<and> InitInstance w2 config2 (run cs (InitInstance w config s))
           = run cs (InitInstance w config s)
       \<and> GetInstance (run cs (InitInstance w config s))
           = (None, Some (errors_New ''guardian is not initialized''))"
proof -
  have "initOnce (run cs0 process0) \<or> instance (run cs0 process0) = None"
    by (rule run_guard_inv) (simp add: process0_def)
  then have none: "instance s = None" using assms(1,2) by simp
  have i1: "instance (InitInstance w config s) = None"
  proof (cases "Disabled config")
    case True
    then show ?thesis by (simp add: InitInstance_disabled [OF assms(2) True] none)
  next
    case False
    then have "isl (fst (newGuardian w config s))" using assms(3) by simp
    then show ?thesis by (simp add: InitInstance_failure [OF assms(2) False])
  qed
  have i2: "initOnce (InitInstance w config s)" by (rule InitInstance_consumes)
  have k: "initOnce (run cs (InitInstance w config s))
           \<and> instance (run cs (InitInstance w config s)) = None"
    by (rule run_keeps_guard [OF assms(4) i2 i1])
  show ?thesis using i1 i2 k by (simp add: InitInstance_used GetInstance_nil)
qed

theorem InitInstance_guard_consumed_witness:
  "InitInstance exWorld exConfig (run [CallGetInstance] (InitInstance exWorldWindows exConfig process0))
     = run [CallGetInstance] (InitInstance exWorldWindows exConfig process0)
   \<and> GetInstance (run [CallGetInstance] (InitInstance exWorldWindows exConfig process0))
     = (None, Some (errors_New ''guardian is not initialized''))"
proof -
  have a: "(process0 :: (string option \<times> string option) process)
             = run ([] :: (unit, string option \<times> string option, string) call list) process0"
    by simp
  have b: "\<not> initOnce (process0 :: (string option \<times> string option) process)"
    by (simp add: process0_def)
  have c: "Disabled exConfig \<or> isl (fst (newGuardian exWorldWindows exConfig
             (process0 :: (string option \<times> string option) process)))"
    by (simp add: newGuardian_def getDefaultPath_def exWorldWindows_def exWorld_def exConfig_def)
  have d: "noReset [CallGetInstance :: (unit, string option \<times> string option, string) call]"
    by (simp add: noReset_def)
  show ?thesis
    using InitInstance_guard_consumed [OF a b c d, of exWorld exConfig] by simp
qed

section \<open>Joining paths\<close>

lemma splitSlash_not_Nil [simp]: "splitSlash p \<noteq> []"
  by (induction p) (auto split: list.splits)

lemma splitSlash_append: "splitSlash (a @ CHR ''/'' # b) = splitSlash a @ splitSlash b"
proof (induction a)
  case Nil
  then show ?case by simp
next
  case (Cons c a)
  obtain x xs where s: "splitSlash a = x # xs" by (cases "splitSlash a") simp_all
  show ?case using Cons s by simp
qed

lemma splitSlash_slashFree: "slashFree c \<Longrightarrow> splitSlash c = [c]"
  by (induction c) (auto simp add: slashFree_def)

lemma splitSlash_parts: "list_all slashFree (splitSlash p)"
  by (induction p) (auto simp add: slashFree_def split: list.splits)

lemma splitSlash_joinSlash:
  "ps \<noteq> [] \<Longrightarrow> list_all slashFree ps \<Longrightarrow> splitSlash (joinSlash ps) = ps"
proof (induction ps rule: joinSlash.induct)
  case 1
  then show ?case by simp
next
  case (2 x)
  then show ?case by (simp add: splitSlash_slashFree)
next
  case (3 x y ys)
  then show ?case by (simp add: splitSlash_append splitSlash_slashFree)
qed

lemma cleanParts_append:
  "cleanParts r (xs @ ys) out = cleanParts r ys (rev (cleanParts r xs out))"
  by (induction xs arbitrary: out) (auto split: list.splits)

lemma cleanParts_plain: "plainPart c \<Longrightarrow> cleanParts r [c] out = rev out @ [c]"
  by (simp add: plainPart_def)

lemma stackShape_dots: "list_all (\<lambda>y. y = ''..'') xs \<Longrightarrow> \<not> r \<Longrightarrow> stackShape r xs"
  by (induction xs) auto

lemma stackShape_suffix: "stackShape r (a @ b) \<Longrightarrow> stackShape r b"
proof (induction a)
  case Nil
  then show ?case by simp
next
  case (Cons x a)
  then show ?case by (auto simp add: stackShape_dots split: if_splits)
qed

lemma cleanParts_shape:
  "stackShape r out \<Longrightarrow> list_all slashFree xs \<Longrightarrow> stackShape r (rev (cleanParts r xs out))"
proof (induction xs arbitrary: out)
  case Nil
  then show ?case by simp
next
  case (Cons c cs)
  then show ?case
    by (cases out) (auto simp add: plainPart_def split: if_splits)
qed

lemma cleanParts_fixed:
  "stackShape r (rev xs @ acc) \<Longrightarrow> cleanParts r xs acc = rev acc @ xs"
proof (induction xs arbitrary: acc)
  case Nil
  then show ?case by simp
next
  case (Cons x xs)
  from Cons.prems have all: "stackShape r (rev xs @ (x # acc))" by simp
  then have top: "stackShape r (x # acc)" by (rule stackShape_suffix)
  have push: "cleanParts r (x # xs) acc = cleanParts r xs (x # acc)"
    using top by (cases acc) (auto simp add: plainPart_def split: if_splits)
  show ?case using Cons.IH [OF all] push by simp
qed

lemma Clean_render:
  "p \<noteq> [] \<Longrightarrow> Clean p = render (hd p = CHR ''/'') (cleanParts (hd p = CHR ''/'') (splitSlash p) [])"
  by (cases p) (simp_all add: Clean_def render_def Let_def)

lemma stackShape_parts: "stackShape r xs \<Longrightarrow> list_all (\<lambda>c. c \<noteq> [] \<and> slashFree c) xs"
proof (induction xs)
  case Nil
  then show ?case by simp
next
  case (Cons x xs)
  have dots: "list_all (\<lambda>y. y = ''..'') xs \<Longrightarrow> list_all (\<lambda>c. c \<noteq> [] \<and> slashFree c) xs"
    by (induction xs) (auto simp add: slashFree_def)
  show ?case using Cons dots
    by (auto simp add: plainPart_def slashFree_def stackShape_dots split: if_splits)
qed

lemma joinSlash_hd:
  "ps \<noteq> [] \<Longrightarrow> list_all (\<lambda>c. c \<noteq> [] \<and> slashFree c) ps \<Longrightarrow>
     joinSlash ps \<noteq> [] \<and> hd (joinSlash ps) \<noteq> CHR ''/''"
proof (induction ps rule: joinSlash.induct)
  case 1
  then show ?case by simp
next
  case (2 x)
  then show ?case by (cases x) (auto simp add: slashFree_def)
next
  case (3 x y ys)
  then show ?case by (cases x) (auto simp add: slashFree_def)
qed

text \<open>Cleaning a cleaned path gives the same components, the same root and no empty path.\<close>

lemma Clean_again:
  assumes "y \<noteq> []"
  defines "r \<equiv> (hd y = CHR ''/'')"
  defines "ps \<equiv> cleanParts r (splitSlash y) []"
  shows "Clean y \<noteq> []" and "(hd (Clean y) = CHR ''/'') = r"
    and "cleanParts r (splitSlash (Clean y)) [] = ps"
proof -
  have z: "Clean y = render r ps" using assms(1) by (simp add: Clean_render r_def ps_def)
  have "stackShape r (rev ps)"
    unfolding ps_def by (rule cleanParts_shape) (simp_all add: splitSlash_parts)
  then have shape: "stackShape r (rev ps @ [])" by simp
  have ok: "list_all (\<lambda>c. c \<noteq> [] \<and> slashFree c) ps"
    using stackShape_parts [OF \<open>stackShape r (rev ps)\<close>] by (simp add: list_all_iff)
  then have sf: "list_all slashFree ps" by (simp add: list_all_iff)
  have fixed: "cleanParts r ps [] = ps" using cleanParts_fixed [OF shape] by simp
  show "Clean y \<noteq> []"
    using z joinSlash_hd [OF _ ok] by (auto simp add: render_def)
  show "(hd (Clean y) = CHR ''/'') = r"
    using z joinSlash_hd [OF _ ok] by (auto simp add: render_def)
  show "cleanParts r (splitSlash (Clean y)) [] = ps"
  proof (cases "ps = []")
    case True
    then show ?thesis using z by (cases r) (simp_all add: render_def)
  next
    case False
    have again: "splitSlash (joinSlash ps) = ps" by (rule splitSlash_joinSlash [OF False sf])
    show ?thesis
    proof (cases r)
      case True
      then have "splitSlash (Clean y) = [] # ps" using z again by (simp add: render_def)
      then show ?thesis using fixed by simp
    next
      case nr: False
      then have "splitSlash (Clean y) = ps" using z again False by (simp add: render_def)
      then show ?thesis using fixed by simp
    qed
  qed
qed

lemma Clean_snoc:
  assumes "y \<noteq> []" "plainPart f"
  shows "Clean (y @ CHR ''/'' # f)
           = render (hd y = CHR ''/'') (cleanParts (hd y = CHR ''/'') (splitSlash y) [] @ [f])"
proof -
  have sf: "splitSlash f = [f]" using assms(2) by (simp add: plainPart_def splitSlash_slashFree)
  have c: "Clean (y @ CHR ''/'' # f)
             = render (hd (y @ CHR ''/'' # f) = CHR ''/'')
                 (cleanParts (hd (y @ CHR ''/'' # f) = CHR ''/'') (splitSlash (y @ CHR ''/'' # f)) [])"
    by (rule Clean_render) simp
  have h: "hd (y @ CHR ''/'' # f) = hd y" using assms(1) by simp
  have p: "cleanParts (hd y = CHR ''/'') (splitSlash (y @ CHR ''/'' # f)) []
             = cleanParts (hd y = CHR ''/'') (splitSlash y) [] @ [f]"
    by (simp only: splitSlash_append sf cleanParts_append cleanParts_plain [OF assms(2)]
        rev_rev_ident)
  show ?thesis by (simp only: c h p)
qed

lemma Clean_absorb:
  assumes "y \<noteq> []" "plainPart f"
  shows "Clean (Clean y @ CHR ''/'' # f) = Clean (y @ CHR ''/'' # f)"
proof -
  note a = Clean_again [OF assms(1)]
  have "Clean (Clean y @ CHR ''/'' # f)
          = render (hd (Clean y) = CHR ''/'')
              (cleanParts (hd (Clean y) = CHR ''/'') (splitSlash (Clean y)) [] @ [f])"
    by (rule Clean_snoc [OF a(1) assms(2)])
  also have "\<dots> = render (hd y = CHR ''/'') (cleanParts (hd y = CHR ''/'') (splitSlash y) [] @ [f])"
    by (simp only: a(2) a(3))
  also have "\<dots> = Clean (y @ CHR ''/'' # f)"
    by (rule Clean_snoc [OF assms, symmetric])
  finally show ?thesis .
qed

lemma filepath_Join_nested:
  assumes "d \<noteq> []" "plainPart f"
  shows "filepath_Join [filepath_Join [h, d], f] = filepath_Join [h, d @ CHR ''/'' # f]"
proof (cases "h = []")
  case True
  have "Clean d \<noteq> []" by (rule Clean_again(1) [OF assms(1)])
  then show ?thesis
    using True assms(1) Clean_absorb [OF assms] by (simp add: filepath_Join_def)
next
  case False
  have n: "h @ CHR ''/'' # d \<noteq> []" by simp
  have "Clean (h @ CHR ''/'' # d) \<noteq> []" by (rule Clean_again(1) [OF n])
  then show ?thesis
    using False Clean_absorb [OF n assms(2)] by (simp add: filepath_Join_def)
qed

lemma default_paths_joined:
  "filepath_Join [filepath_Join [h, ''geth/guardian''], ''bloom_filter.gob'']
     = filepath_Join [h, ''geth/guardian/bloom_filter.gob'']"
  "filepath_Join [filepath_Join [h, ''Library/Story/geth/guardian''], ''bloom_filter.gob'']
     = filepath_Join [h, ''Library/Story/geth/guardian/bloom_filter.gob'']"
  using filepath_Join_nested [of "''geth/guardian''" "''bloom_filter.gob''" h]
    filepath_Join_nested [of "''Library/Story/geth/guardian''" "''bloom_filter.gob''" h]
  by (simp_all add: plainPart_def slashFree_def)

lemma newGuardian_default_linux:
  assumes "FilterFilePath config = []" "user_Current w = Inr u" "GOOS w = ''linux''"
  shows "take 1 (added s (snd (newGuardian w config s)))
           = [Load (Join w [Join w [HomeDir u, ''geth/guardian''], ''bloom_filter.gob''])]"
  using assms
  by (simp add: newGuardian_def getDefaultPath_def linuxPath_def bloomFilterFilename_def
      emit_def added_def Let_def split: sum.splits option.splits)

lemma newGuardian_default_darwin:
  assumes "FilterFilePath config = []" "user_Current w = Inr u" "GOOS w = ''darwin''"
  shows "take 1 (added s (snd (newGuardian w config s)))
           = [Load (Join w [Join w [HomeDir u, ''Library/Story/geth/guardian''],
                            ''bloom_filter.gob''])]"
  using assms
  by (simp add: newGuardian_def getDefaultPath_def darwinPath_def bloomFilterFilename_def
      emit_def added_def Let_def split: sum.splits option.splits)

lemma newGuardian_default_other:
  assumes "FilterFilePath config = []" "GOOS w \<noteq> ''linux''" "GOOS w \<noteq> ''darwin''"
  shows "isl (fst (newGuardian w config s)) \<and> snd (newGuardian w config s) = s"
    and "user_Current w = Inr u \<longrightarrow>
           fst (newGuardian w config s) = Inl (errors_New ''unsupported OS for guardian'')"
  using assms
  by (simp_all add: newGuardian_def getDefaultPath_def split: sum.splits)

text \<open>
  C8. With no \<open>FilterFilePath\<close> configured, the snapshot that \<open>newGuardian\<close> loads is at
  the home directory of the current user joined with \<open>geth/guardian\<close> and then with
  \<open>bloom_filter.gob\<close> on linux, and with \<open>Library/Story/geth/guardian\<close> and then
  \<open>bloom_filter.gob\<close> on darwin; with the path joining of Unix that is the home
  directory joined with \<open>geth/guardian/bloom_filter.gob\<close>, and with
  \<open>Library/Story/geth/guardian/bloom_filter.gob\<close>. On any other platform \<open>newGuardian\<close> returns an error
  (the "unsupported OS" one when the user lookup succeeds) and does nothing else, and
  an \<open>InitInstance\<close> that runs it leaves no instance and allocates none.
\<close>

theorem newGuardian_default_path:
  assumes "FilterFilePath config = []"
  shows "(user_Current w = Inr u \<and> GOOS w = ''linux'' \<longrightarrow>
            take 1 (added s (snd (newGuardian w config s)))
              = [Load (Join w [Join w [HomeDir u, ''geth/guardian''], ''bloom_filter.gob''])])
       \<and> (user_Current w = Inr u \<and> GOOS w = ''darwin'' \<longrightarrow>
            take 1 (added s (snd (newGuardian w config s)))
              = [Load (Join w [Join w [HomeDir u, ''Library/Story/geth/guardian''],
                               ''bloom_filter.gob''])])
       \<and> (Join w = filepath_Join \<longrightarrow>
            Join w [Join w [HomeDir u, ''geth/guardian''], ''bloom_filter.gob'']
              = filepath_Join [HomeDir u, ''geth/guardian/bloom_filter.gob'']
          \<and> Join w [Join w [HomeDir u, ''Library/Story/geth/guardian''], ''bloom_filter.gob'']
              = filepath_Join [HomeDir u, ''Library/Story/geth/guardian/bloom_filter.gob''])
       \<and> (GOOS w \<noteq> ''linux'' \<and> GOOS w \<noteq> ''darwin'' \<longrightarrow>
            isl (fst (newGuardian w config s)) \<and> snd (newGuardian w config s) = s
          \<and> (user_Current w = Inr u \<longrightarrow>
               fst (newGuardian w config s) = Inl (errors_New ''unsupported OS for guardian''))
          \<and> (\<not> initOnce s \<and> \<not> Disabled config \<longrightarrow>
               instance (InitInstance w config s) = None
             \<and> heap (InitInstance w config s) = heap s))"
proof (intro conjI impI)
  assume "user_Current w = Inr u \<and> GOOS w = ''linux''"
  then have a: "user_Current w = Inr u" and b: "GOOS w = ''linux''" by simp_all
  show "take 1 (added s (snd (newGuardian w config s)))
              = [Load (Join w [Join w [HomeDir u, ''geth/guardian''], ''bloom_filter.gob''])]"
    by (rule newGuardian_default_linux [OF assms a b])
next
  assume "user_Current w = Inr u \<and> GOOS w = ''darwin''"
  then have a: "user_Current w = Inr u" and b: "GOOS w = ''darwin''" by simp_all
  show "take 1 (added s (snd (newGuardian w config s)))
              = [Load (Join w [Join w [HomeDir u, ''Library/Story/geth/guardian''],
                               ''bloom_filter.gob''])]"
    by (rule newGuardian_default_darwin [OF assms a b])
next
  assume j: "Join w = filepath_Join"
  show "Join w [Join w [HomeDir u, ''geth/guardian''], ''bloom_filter.gob'']
          = filepath_Join [HomeDir u, ''geth/guardian/bloom_filter.gob'']"
    by (simp only: j default_paths_joined)
  show "Join w [Join w [HomeDir u, ''Library/Story/geth/guardian''], ''bloom_filter.gob'']
          = filepath_Join [HomeDir u, ''Library/Story/geth/guardian/bloom_filter.gob'']"
    by (simp only: j default_paths_joined)
next
  assume h: "GOOS w \<noteq> ''linux'' \<and> GOOS w \<noteq> ''darwin''"
  then have a: "GOOS w \<noteq> ''linux''" and b: "GOOS w \<noteq> ''darwin''" by simp_all
  have o: "isl (fst (newGuardian w config s)) \<and> snd (newGuardian w config s) = s"
    by (rule newGuardian_default_other(1) [OF assms a b])
  show "isl (fst (newGuardian w config s))" using o by simp
  show "snd (newGuardian w config s) = s" using o by simp
  { assume u: "user_Current w = Inr u"
    show "fst (newGuardian w config s) = Inl (errors_New ''unsupported OS for guardian'')"
      using newGuardian_default_other(2) [OF assms a b, of u s] u by simp }
  { assume k: "\<not> initOnce s \<and> \<not> Disabled config"
    have f: "isl (fst (newGuardian w config s))" using o by simp
    from k have k1: "\<not> initOnce s" and k2: "\<not> Disabled config" by simp_all
    show "instance (InitInstance w config s) = None"
      using InitInstance_failure [OF k1 k2 f] by simp
    show "heap (InitInstance w config s) = heap s"
      using InitInstance_failure [OF k1 k2 f] by simp }
qed

lemma exWorldDarwin_sel:
  "user_Current exWorldDarwin = Inr \<lparr>HomeDir = ''/Users/alice''\<rparr>"
  "GOOS exWorldDarwin = ''darwin''"
  "Join exWorldDarwin = filepath_Join"
  by (simp_all add: exWorldDarwin_def exWorld_def)

theorem newGuardian_default_path_witness:
  "take 1 (added process0 (snd (newGuardian exWorld exConfig process0)))
     = [Load ''/home/alice/geth/guardian/bloom_filter.gob'']
   \<and> take 1 (added process0 (snd (newGuardian exWorldDarwin exConfig process0)))
     = [Load ''/Users/alice/Library/Story/geth/guardian/bloom_filter.gob'']
   \<and> fst (newGuardian exWorldWindows exConfig process0)
     = Inl (errors_New ''unsupported OS for guardian'')
   \<and> instance (InitInstance exWorldWindows exConfig process0) = None"
proof -
  have c: "FilterFilePath exConfig = []" by (simp add: exConfig_def)
  have w: "GOOS exWorldWindows \<noteq> ''linux'' \<and> GOOS exWorldWindows \<noteq> ''darwin''"
      "user_Current exWorldWindows = Inr \<lparr>HomeDir = ''/home/alice''\<rparr>"
    by (simp_all add: exWorldWindows_def exWorld_def)
  have p: "\<not> initOnce (process0 :: (string option \<times> string option) process)
           \<and> \<not> Disabled exConfig"
    by (simp add: process0_def exConfig_def)
  show ?thesis
    using newGuardian_default_path [OF c, of exWorld "\<lparr>HomeDir = ''/home/alice''\<rparr>" process0]
      newGuardian_default_path [OF c, of exWorldDarwin "\<lparr>HomeDir = ''/Users/alice''\<rparr>" process0]
      newGuardian_default_path [OF c, of exWorldWindows "\<lparr>HomeDir = ''/home/alice''\<rparr>" process0]
      w p ex_paths
    by (simp add: exWorld_sel exWorldDarwin_sel linuxPath_def darwinPath_def bloomFilterFilename_def)
qed

section \<open>Reset\<close>

lemma Reset_nil: "fst (Reset w None s) = Panic"
  by (simp add: Reset_def deref_def split: prod.splits outcome.splits)

text \<open>
  \<open>Reset\<close> on a receiver that points to a \<open>Guardian\<close>: it returns, stops the manager of
  the singleton if there is one, and clears the singleton pointer and the guard.
\<close>

lemma Reset_on_Guardian:
  assumes "deref s p = Some g" "instance s = None \<or> deref s (instance s) \<noteq> None"
  shows "fst (Reset w p s) = Return ()"
    and "instance (snd (Reset w p s)) = None"
    and "\<not> initOnce (snd (Reset w p s))"
    and "heap (snd (Reset w p s)) = heap s"
    and "added s (snd (Reset w p s)) =
           (case deref s (instance s) of
              None \<Rightarrow> []
            | Some i \<Rightarrow> (case manager i of None \<Rightarrow> [] | Some m \<Rightarrow> [ManagerStop m]))"
  using assms
  by (auto simp add: Reset_def Stop_def emit_def added_def deref_def split: option.splits if_splits)

text \<open>
  After such a \<open>Reset\<close>, an \<open>InitInstance\<close> whose construction succeeds installs a newly
  allocated \<open>Guardian\<close>.
\<close>

lemma InitInstance_after_Reset:
  assumes "deref s p = Some g" "instance s = None \<or> deref s (instance s) \<noteq> None"
    "\<not> Disabled config" "fst (newGuardian w2 config (snd (Reset w p s))) = Inr a"
  shows "instance (InitInstance w2 config (snd (Reset w p s))) = Some a"
    and "a = length (heap s)"
    and "deref (InitInstance w2 config (snd (Reset w p s))) (Some a) \<noteq> None"
proof -
  let ?s = "snd (Reset w p s)"
  have f: "\<not> initOnce ?s" by (rule Reset_on_Guardian(3) [OF assms(1,2)])
  have h: "heap ?s = heap s" by (rule Reset_on_Guardian(4) [OF assms(1,2)])
  obtain r s1 where ng: "newGuardian w2 config ?s = (r, s1)" by (cases "newGuardian w2 config ?s")
  with assms(4) have r: "r = Inr a" by simp
  have al: "a = length (heap ?s) \<and> heap s1 = heap ?s @ [heap s1 ! a]"
    using ng r by (simp add: newGuardian_def emit_def Let_def split: sum.splits option.splits if_splits) auto
  show "instance (InitInstance w2 config ?s) = Some a"
    using f assms(3) ng r by (simp add: InitInstance_def)
  show "a = length (heap s)" using al h by simp
  have "a < length (heap s1)" using al by (metis length_append_singleton lessI)
  then show "deref (InitInstance w2 config ?s) (Some a) \<noteq> None"
    using f assms(3) ng r by (simp add: InitInstance_def deref_def)
qed

text \<open>
  C7, as the code has it. \<open>Reset\<close> called on a receiver that points to a \<open>Guardian\<close>
  returns without a panic, also when no instance is installed; it stops the reload
  manager of the current instance if there is one, and clears the singleton pointer and
  the one-shot guard, so that the next \<open>InitInstance\<close> runs its construction and, when
  that succeeds, installs a newly allocated \<open>Guardian\<close>. (The second hypothesis says
  that the singleton pointer, when set, points to a \<open>Guardian\<close>, as every Go pointer
  does.)
\<close>

theorem Reset_on_receiver:
  assumes "deref s p = Some g" "instance s = None \<or> deref s (instance s) \<noteq> None"
  shows "fst (Reset w p s) = Return ()
       \<and> added s (snd (Reset w p s)) =
           (case deref s (instance s) of
              None \<Rightarrow> []
            | Some i \<Rightarrow> (case manager i of None \<Rightarrow> [] | Some m \<Rightarrow> [ManagerStop m]))
       \<and> instance (snd (Reset w p s)) = None
       \<and> \<not> initOnce (snd (Reset w p s))
       \<and> heap (snd (Reset w p s)) = heap s
       \<and> (\<not> Disabled config \<and> fst (newGuardian w2 config (snd (Reset w p s))) = Inr a \<longrightarrow>
            instance (InitInstance w2 config (snd (Reset w p s))) = Some a
          \<and> a = length (heap s)
          \<and> deref (InitInstance w2 config (snd (Reset w p s))) (Some a) \<noteq> None)"
proof (intro conjI impI)
  show "fst (Reset w p s) = Return ()" by (rule Reset_on_Guardian(1) [OF assms])
  show "added s (snd (Reset w p s)) =
           (case deref s (instance s) of
              None \<Rightarrow> []
            | Some i \<Rightarrow> (case manager i of None \<Rightarrow> [] | Some m \<Rightarrow> [ManagerStop m]))"
    by (rule Reset_on_Guardian(5) [OF assms])
  show "instance (snd (Reset w p s)) = None" by (rule Reset_on_Guardian(2) [OF assms])
  show "\<not> initOnce (snd (Reset w p s))" by (rule Reset_on_Guardian(3) [OF assms])
  show "heap (snd (Reset w p s)) = heap s" by (rule Reset_on_Guardian(4) [OF assms])
next
  assume h: "\<not> Disabled config \<and> fst (newGuardian w2 config (snd (Reset w p s))) = Inr a"
  then have d: "\<not> Disabled config"
    and n: "fst (newGuardian w2 config (snd (Reset w p s))) = Inr a" by simp_all
  show "instance (InitInstance w2 config (snd (Reset w p s))) = Some a"
    by (rule InitInstance_after_Reset(1) [OF assms d n])
  show "a = length (heap s)" by (rule InitInstance_after_Reset(2) [OF assms d n])
  show "deref (InitInstance w2 config (snd (Reset w p s))) (Some a) \<noteq> None"
    by (rule InitInstance_after_Reset(3) [OF assms d n])
qed

lemma ex_reset:
  "Reset exWorld (Some 0) exProcess =
     (Return (), \<lparr>instance = None, initOnce = False,
                   heap = [\<lparr>filter = Some 7, manager = Some 8\<rparr>], trace = [ManagerStop 8]\<rparr>)"
  by (simp add: Reset_def Stop_def deref_def emit_def exProcess_def)

lemma ex_reset_new:
  "fst (newGuardian exWorld exConfig (snd (Reset exWorld (Some 0) exProcess))) = Inr 1"
  by (simp add: ex_reset newGuardian_def getDefaultPath_def exWorld_sel exWorld_files
      exConfig_def emit_def ex_paths Let_def)

theorem Reset_on_receiver_witness:
  "Reset exWorld (Some 0) exIdle = (Return (), exIdle)
   \<and> fst (Reset exWorld (Some 0) exProcess) = Return ()
   \<and> added exProcess (snd (Reset exWorld (Some 0) exProcess)) = [ManagerStop 8]
   \<and> instance (InitInstance exWorld exConfig (snd (Reset exWorld (Some 0) exProcess))) = Some 1"
proof -
  have i1: "deref exIdle (Some 0) = Some \<lparr>filter = None, manager = None\<rparr>"
    by (simp add: deref_def exIdle_def)
  have i2: "instance exIdle = None \<or> deref exIdle (instance exIdle) \<noteq> None"
    by (simp add: exIdle_def)
  have p2: "instance exProcess = None \<or> deref exProcess (instance exProcess) \<noteq> None"
    by (simp add: exProcess_def deref_def)
  have c: "\<not> Disabled exConfig" by (simp add: exConfig_def)
  have idle: "Reset exWorld (Some 0) exIdle = (Return (), exIdle)"
    using Reset_on_receiver [OF i1 i2, of exWorld exConfig exWorld 0]
    by (simp add: Reset_def deref_def exIdle_def)
  have live: "fst (Reset exWorld (Some 0) exProcess) = Return ()
   \<and> added exProcess (snd (Reset exWorld (Some 0) exProcess)) = [ManagerStop 8]
   \<and> instance (InitInstance exWorld exConfig (snd (Reset exWorld (Some 0) exProcess))) = Some 1"
    using Reset_on_receiver [OF exProcess_deref p2, of exWorld exConfig exWorld 1] c ex_reset_new
    by (simp add: exProcess_def deref_def)
  show ?thesis using idle live by simp
qed

text \<open>
  C7 as stated fails on a \<open>nil\<close> receiver. In a process where no instance was ever
  created \<open>GetInstance\<close> hands out \<open>nil\<close>, and \<open>Reset\<close> on that pointer panics at
  \<open>p.mu.Lock()\<close>.
\<close>

theorem Reset_nil_receiver_panics:
  "GetInstance (process0 :: (string option \<times> string option) process)
     = (None, Some (errors_New ''guardian is not initialized''))
   \<and> Reset exWorld None process0 = (Panic, process0)"
  by (simp add: GetInstance_def Reset_def deref_def process0_def)

end
